theory Spec2Isabelle
  imports Main "HOL-Library.Word"
begin

unbundle bit_operations_syntax

section \<open>Values of the JavaScript runtime\<close>

text \<open>
  The server (\<^verbatim>\<open>src/server/index.js\<close>) works on two kinds of values: JavaScript
  strings, which are sequences of UTF-16 code units, and Node.js \<^verbatim>\<open>Buffer\<close>s, which
  are sequences of bytes. A string literal of the source that is plain ASCII is written
  with \<open>js_str\<close>.
\<close>

type_synonym byte = "8 word"
type_synonym jsstring = "16 word list"

definition js_str :: "string \<Rightarrow> jsstring" where
  "js_str s = map (\<lambda>c. of_nat (of_char c)) s"

subsection \<open>Strings to bytes: \<^verbatim>\<open>Buffer.from(s, "utf8")\<close> and \<^verbatim>\<open>hash.update(s)\<close>\<close>

definition is_high :: "16 word \<Rightarrow> bool" where
  "is_high u \<longleftrightarrow> 0xD800 \<le> unat u \<and> unat u \<le> 0xDBFF"

definition is_low :: "16 word \<Rightarrow> bool" where
  "is_low u \<longleftrightarrow> 0xDC00 \<le> unat u \<and> unat u \<le> 0xDFFF"

text \<open>The UTF-8 bytes of one code point (a number below \<open>0x110000\<close>).\<close>

definition utf8_of_cp :: "nat \<Rightarrow> byte list" where
  "utf8_of_cp c =
     (if c < 0x80 then [of_nat c]
      else if c < 0x800 then [of_nat (0xC0 + c div 0x40), of_nat (0x80 + c mod 0x40)]
      else if c < 0x10000 then
        [of_nat (0xE0 + c div 0x1000), of_nat (0x80 + c div 0x40 mod 0x40),
         of_nat (0x80 + c mod 0x40)]
      else
        [of_nat (0xF0 + c div 0x40000), of_nat (0x80 + c div 0x1000 mod 0x40),
         of_nat (0x80 + c div 0x40 mod 0x40), of_nat (0x80 + c mod 0x40)])"

text \<open>The code point that a high and a low surrogate stand for.\<close>

definition cp_of_pair :: "16 word \<Rightarrow> 16 word \<Rightarrow> nat" where
  "cp_of_pair h l = 0x10000 + (unat h - 0xD800) * 0x400 + (unat l - 0xDC00)"

text \<open>
  The encoder reads surrogate pairs as one code point; a surrogate that has no partner
  is written as the bytes of U+FFFD, the replacement character.
\<close>

fun utf8_encode :: "jsstring \<Rightarrow> byte list" where
  "utf8_encode [] = []"
| "utf8_encode [u] =
     (if is_high u \<or> is_low u then [0xEF, 0xBF, 0xBD] else utf8_of_cp (unat u))"
| "utf8_encode (u # l # us) =
     (if is_high u \<and> is_low l then utf8_of_cp (cp_of_pair u l) @ utf8_encode us
      else if is_high u \<or> is_low u then [0xEF, 0xBF, 0xBD] @ utf8_encode (l # us)
      else utf8_of_cp (unat u) @ utf8_encode (l # us))"

subsection \<open>Bytes to strings: \<^verbatim>\<open>buffer.toString()\<close>\<close>

text \<open>
  \<^verbatim>\<open>toString()\<close> decodes UTF-8 and never fails: each maximal ill-formed part of the
  input becomes one U+FFFD. The decoder is a state machine over the bytes: between
  characters it is in \<open>Start\<close>; inside a multi-byte character it remembers how many
  continuation bytes are still missing, the bits collected so far, and the range the
  next byte has to lie in.
\<close>

datatype dstate = Start | Cont nat nat nat nat

definition utf16_of_cp :: "nat \<Rightarrow> jsstring" where
  "utf16_of_cp c =
     (if c < 0x10000 then [of_nat c]
      else [of_nat (0xD800 + (c - 0x10000) div 0x400),
            of_nat (0xDC00 + (c - 0x10000) mod 0x400)])"

definition utf8_lead :: "nat \<Rightarrow> jsstring \<times> dstate" where
  "utf8_lead b =
     (if b < 0x80 then ([of_nat b], Start)
      else if 0xC2 \<le> b \<and> b \<le> 0xDF then ([], Cont 1 (b - 0xC0) 0x80 0xBF)
      else if 0xE0 \<le> b \<and> b \<le> 0xEF then
        ([], Cont 2 (b - 0xE0) (if b = 0xE0 then 0xA0 else 0x80) (if b = 0xED then 0x9F else 0xBF))
      else if 0xF0 \<le> b \<and> b \<le> 0xF4 then
        ([], Cont 3 (b - 0xF0) (if b = 0xF0 then 0x90 else 0x80) (if b = 0xF4 then 0x8F else 0xBF))
      else ([0xFFFD], Start))"

fun utf8_decode :: "dstate \<Rightarrow> byte list \<Rightarrow> jsstring" where
  "utf8_decode Start [] = []"
| "utf8_decode (Cont n c lo hi) [] = [0xFFFD]"
| "utf8_decode Start (b # bs) =
     (case utf8_lead (unat b) of (out, st) \<Rightarrow> out @ utf8_decode st bs)"
| "utf8_decode (Cont n c lo hi) (b # bs) =
     (if lo \<le> unat b \<and> unat b \<le> hi then
        (if n = 1 then utf16_of_cp (c * 0x40 + (unat b - 0x80)) @ utf8_decode Start bs
         else utf8_decode (Cont (n - 1) (c * 0x40 + (unat b - 0x80)) 0x80 0xBF) bs)
      else 0xFFFD # (case utf8_lead (unat b) of (out, st) \<Rightarrow> out @ utf8_decode st bs))"

definition toString :: "byte list \<Rightarrow> jsstring" where
  "toString bs = utf8_decode Start bs"

text \<open>A string is well formed when every surrogate is half of a pair.\<close>

fun well_formed :: "jsstring \<Rightarrow> bool" where
  "well_formed [] = True"
| "well_formed [u] = (\<not> is_high u \<and> \<not> is_low u)"
| "well_formed (u # l # us) =
     (if is_high u then is_low l \<and> well_formed us
      else \<not> is_low u \<and> well_formed (l # us))"

section \<open>Buffers\<close>

text \<open>
  A freshly allocated buffer is the list of its bytes. \<^verbatim>\<open>Buffer.alloc(n)\<close> is zero
  filled. An indexed store outside the buffer is ignored by JavaScript, and the stored
  number is reduced modulo 256.
\<close>

definition Buffer_alloc :: "nat \<Rightarrow> byte list" where
  "Buffer_alloc n = replicate n 0"

definition buf_set :: "byte list \<Rightarrow> nat \<Rightarrow> nat \<Rightarrow> byte list" where
  "buf_set buf i v = (if i < length buf then buf[i := of_nat v] else buf)"

text \<open>Overwriting a buffer from an offset on, truncated at the end of the buffer.\<close>

definition buf_write :: "byte list \<Rightarrow> nat \<Rightarrow> byte list \<Rightarrow> byte list" where
  "buf_write buf off bs =
     take off buf @ take (length buf - off) bs @ drop (off + length bs) buf"

text \<open>The \<open>n\<close> low bytes of a number, most significant first.\<close>

fun be_bytes :: "nat \<Rightarrow> nat \<Rightarrow> byte list" where
  "be_bytes 0 v = []"
| "be_bytes (Suc n) v = of_nat (v div 256 ^ n mod 256) # be_bytes n v"

text \<open>
  \<^verbatim>\<open>buf.writeUInt16BE(value, offset)\<close> and \<^verbatim>\<open>buf.writeBigUInt64BE(value, offset)\<close>.
  Node.js rejects a value that does not fit or an offset that leaves the buffer; in
  \<open>sendMessage\<close> the branch conditions and the allocation sizes keep both calls in range
  (a JavaScript string has fewer than \<open>2 ^ 53\<close> code units, so its UTF-8 length fits 64
  bits). \<^verbatim>\<open>source.copy(target, targetStart)\<close> copies as much of the source as fits.
\<close>

definition writeUInt16BE :: "byte list \<Rightarrow> nat \<Rightarrow> nat \<Rightarrow> byte list" where
  "writeUInt16BE buf v off = buf_write buf off (be_bytes 2 v)"

definition writeBigUInt64BE :: "byte list \<Rightarrow> nat \<Rightarrow> nat \<Rightarrow> byte list" where
  "writeBigUInt64BE buf v off = buf_write buf off (be_bytes 8 v)"

definition buf_copy :: "byte list \<Rightarrow> byte list \<Rightarrow> nat \<Rightarrow> byte list" where
  "buf_copy source target targetStart = buf_write target targetStart source"

subsection \<open>Views\<close>

text \<open>
  \<^verbatim>\<open>buffer.slice(start, end)\<close> does not copy: the result is a window onto the memory of
  \<open>buffer\<close>, so a store through the slice is a store into \<open>buffer\<close>. A view is the
  offset and the length of such a window, relative to the buffer the caller passed in;
  the bytes of that buffer are the state that is threaded through.
\<close>

record view =
  byteOffset :: nat
  byteLength :: nat

definition whole :: "byte list \<Rightarrow> view" where
  "whole mem = \<lparr>byteOffset = 0, byteLength = length mem\<rparr>"

definition buf_slice :: "view \<Rightarrow> nat \<Rightarrow> nat option \<Rightarrow> view" where
  "buf_slice v start end =
     (let s = min start (byteLength v);
          e = (case end of None \<Rightarrow> byteLength v | Some e \<Rightarrow> min e (byteLength v))
      in \<lparr>byteOffset = byteOffset v + s, byteLength = e - s\<rparr>)"

text \<open>Reading outside a buffer gives \<^verbatim>\<open>undefined\<close>, here \<open>None\<close>.\<close>

definition view_get :: "byte list \<Rightarrow> view \<Rightarrow> nat \<Rightarrow> byte option" where
  "view_get mem v i = (if i < byteLength v then Some (mem ! (byteOffset v + i)) else None)"

definition view_set :: "byte list \<Rightarrow> view \<Rightarrow> nat \<Rightarrow> byte \<Rightarrow> byte list" where
  "view_set mem v i x = (if i < byteLength v then mem[byteOffset v + i := x] else mem)"

definition view_bytes :: "byte list \<Rightarrow> view \<Rightarrow> byte list" where
  "view_bytes mem v = take (byteLength v) (drop (byteOffset v) mem)"

text \<open>
  The bitwise operators convert their operands to 32-bit integers, and \<^verbatim>\<open>undefined\<close>
  converts to 0.
\<close>

definition js_and :: "byte option \<Rightarrow> nat \<Rightarrow> nat" where
  "js_and x n = (case x of None \<Rightarrow> 0 | Some b \<Rightarrow> unat b AND n)"

definition js_xor :: "byte option \<Rightarrow> byte option \<Rightarrow> byte" where
  "js_xor x k = (case x of None \<Rightarrow> 0 | Some a \<Rightarrow> a) XOR (case k of None \<Rightarrow> 0 | Some b \<Rightarrow> b)"

section \<open>Decoding a frame: \<open>parseFrame\<close>\<close>

text \<open>The loop \<^verbatim>\<open>for (let i = 0; i < payloadData.length; i++) payloadData[i] ^= maskingKey[i % 4]\<close>.\<close>

function unmask_loop :: "view \<Rightarrow> view \<Rightarrow> nat \<Rightarrow> byte list \<Rightarrow> byte list" where
  "unmask_loop payloadData maskingKey i mem =
     (if i < byteLength payloadData then
        unmask_loop payloadData maskingKey (i + 1)
          (view_set mem payloadData i
             (js_xor (view_get mem payloadData i) (view_get mem maskingKey (i mod 4))))
      else mem)"
  by pat_completeness auto
termination
  by (relation "measure (\<lambda>(payloadData, maskingKey, i, mem). byteLength payloadData - i)") auto

declare unmask_loop.simps [simp del]

text \<open>
  \<open>parseFrame buffer\<close> returns the bytes of the caller's buffer after the call and the
  text that the function returns.
\<close>

definition parseFrame :: "byte list \<Rightarrow> byte list \<times> jsstring" where
  "parseFrame buffer =
     (let secondByte = view_get buffer (whole buffer) 1;
          isMasked = (js_and secondByte 128 = 128);
          payloadLength = js_and secondByte 127;
          dataStart = 2 + (if payloadLength = 126 then 2 else if payloadLength = 127 then 8 else 0);
          maskingKey = (if isMasked then Some (buf_slice (whole buffer) dataStart (Some (dataStart + 4)))
                        else None);
          payloadData = buf_slice (whole buffer) (dataStart + (if isMasked then 4 else 0)) None;
          buffer' = (case maskingKey of
                       Some key \<Rightarrow> unmask_loop payloadData key 0 buffer
                     | None \<Rightarrow> buffer)
      in (buffer', toString (view_bytes buffer' payloadData)))"

section \<open>Encoding a frame: \<open>sendMessage\<close>\<close>

text \<open>
  The client branch draws the masking key from \<^verbatim>\<open>Math.random()\<close>. The random source is
  a parameter: \<open>random i\<close> is the value of \<^verbatim>\<open>Math.floor(Math.random() * 256)\<close> at the
  \<open>i\<close>-th draw, a number from 0 to 255.
\<close>

definition random_mask :: "(nat \<Rightarrow> byte) \<Rightarrow> byte list" where
  "random_mask random = map random [0..<4]"

text \<open>The loop \<^verbatim>\<open>for (let i = 0; i < payload.length; i++) payload[i] ^= maskKey[i % 4]\<close>.\<close>

function mask_loop :: "byte list \<Rightarrow> nat \<Rightarrow> byte list \<Rightarrow> byte list" where
  "mask_loop maskKey i payload =
     (if i < length payload then
        mask_loop maskKey (i + 1) (payload[i := payload ! i XOR maskKey ! (i mod 4)])
      else payload)"
  by pat_completeness auto
termination
  by (relation "measure (\<lambda>(maskKey, i, payload). length payload - i)") auto

declare mask_loop.simps [simp del]

text \<open>
  The body of \<open>sendMessage\<close> up to the write to the socket, with the local constant
  \<open>isClient\<close> as a parameter. The result is the frame.
\<close>

definition build_frame :: "bool \<Rightarrow> (nat \<Rightarrow> byte) \<Rightarrow> jsstring \<Rightarrow> byte list" where
  "build_frame isClient random message =
     (let maskingLength = (if isClient then 4 else 0);
          maskingFlag = (if isClient then 0x80 else 0);
          payload = utf8_encode message;
          payloadLength = length payload;
          frame =
            (if payloadLength < 126 then
               buf_set (Buffer_alloc (2 + maskingLength + payloadLength)) 1
                 (maskingFlag OR payloadLength)
             else if payloadLength < 65536 then
               writeUInt16BE
                 (buf_set (Buffer_alloc (4 + maskingLength + payloadLength)) 1 (maskingFlag OR 126))
                 payloadLength 2
             else
               writeBigUInt64BE
                 (buf_set (Buffer_alloc (10 + maskingLength + payloadLength)) 1 (maskingFlag OR 127))
                 payloadLength 2);
          frame = buf_set frame 0 0x81;
          maskKey = random_mask random;
          frame = (if isClient then
                     buf_copy maskKey frame (length frame - payloadLength - maskingLength)
                   else frame);
          payload = (if isClient then mask_loop maskKey 0 payload else payload)
      in buf_copy payload frame (length frame - payloadLength))"

text \<open>
  In the source the constant is \<^verbatim>\<open>const isClient = false\<close>. A socket is the list of
  the chunks written to it so far; \<open>sendMessage\<close> appends the frame. (The write sits
  in a \<^verbatim>\<open>try\<close> block, but \<^verbatim>\<open>socket.write\<close> of a buffer reports failures through
  the error event and does not throw, so the \<^verbatim>\<open>catch\<close> branch has no effect on the
  frame; the calls to \<^verbatim>\<open>console.log\<close> are left out.)
\<close>

definition isClient :: bool where
  "isClient = False"

definition sendMessage :: "(nat \<Rightarrow> byte) \<Rightarrow> byte list list \<Rightarrow> jsstring \<Rightarrow> byte list list" where
  "sendMessage random socket message = socket @ [build_frame isClient random message]"

section \<open>The handshake: \<open>generateAcceptKey\<close> and the upgrade handler\<close>

subsection \<open>\<^verbatim>\<open>crypto.createHash("sha1")\<close>\<close>

text \<open>
  The hash object of Node.js computes SHA-1 as FIPS 180-4 defines it, over the bytes it
  was fed: the message is padded to a multiple of 64 bytes, each block is expanded to 80
  words of 32 bits and folded into five chaining words by 80 rounds.
\<close>

type_synonym u32 = "32 word"
type_synonym sha1_state = "u32 \<times> u32 \<times> u32 \<times> u32 \<times> u32"

definition be32 :: "byte \<Rightarrow> byte \<Rightarrow> byte \<Rightarrow> byte \<Rightarrow> u32" where
  "be32 a b c d = push_bit 24 (ucast a) OR push_bit 16 (ucast b) OR push_bit 8 (ucast c) OR ucast d"

definition u32_bytes :: "u32 \<Rightarrow> byte list" where
  "u32_bytes w = [ucast (drop_bit 24 w), ucast (drop_bit 16 w), ucast (drop_bit 8 w), ucast w]"

definition u64_bytes :: "64 word \<Rightarrow> byte list" where
  "u64_bytes w =
     [ucast (drop_bit 56 w), ucast (drop_bit 48 w), ucast (drop_bit 40 w), ucast (drop_bit 32 w),
      ucast (drop_bit 24 w), ucast (drop_bit 16 w), ucast (drop_bit 8 w), ucast w]"

definition sha1_pad :: "byte list \<Rightarrow> byte list" where
  "sha1_pad m =
     m @ [0x80] @ replicate ((119 - length m mod 64) mod 64) 0 @ u64_bytes (of_nat (8 * length m))"

fun sha1_blocks :: "nat \<Rightarrow> byte list \<Rightarrow> byte list list" where
  "sha1_blocks 0 bs = []"
| "sha1_blocks (Suc n) bs = take 64 bs # sha1_blocks n (drop 64 bs)"

fun block_words :: "byte list \<Rightarrow> u32 list" where
  "block_words (a # b # c # d # bs) = be32 a b c d # block_words bs"
| "block_words _ = []"

definition rotl :: "nat \<Rightarrow> u32 \<Rightarrow> u32" where
  "rotl n w = push_bit n w OR drop_bit (32 - n) w"

text \<open>
  The message schedule, computed over a window of the last 16 words (oldest first):
  \<open>W\<^sub>t = rotl 1 (W\<^bsub>t-3\<^esub> XOR W\<^bsub>t-8\<^esub> XOR W\<^bsub>t-14\<^esub> XOR W\<^bsub>t-16\<^esub>)\<close>.
\<close>

definition sha1_next :: "u32 list \<Rightarrow> u32" where
  "sha1_next win = rotl 1 (win ! 13 XOR win ! 8 XOR win ! 2 XOR win ! 0)"

fun sha1_expand :: "nat \<Rightarrow> u32 list \<Rightarrow> u32 list" where
  "sha1_expand 0 win = []"
| "sha1_expand (Suc n) win = sha1_next win # sha1_expand n (tl win @ [sha1_next win])"

definition ch :: "u32 \<Rightarrow> u32 \<Rightarrow> u32 \<Rightarrow> u32" where
  "ch b c d = (b AND c) OR (NOT b AND d)"

definition parity :: "u32 \<Rightarrow> u32 \<Rightarrow> u32 \<Rightarrow> u32" where
  "parity b c d = b XOR c XOR d"

definition maj :: "u32 \<Rightarrow> u32 \<Rightarrow> u32 \<Rightarrow> u32" where
  "maj b c d = (b AND c) OR (b AND d) OR (c AND d)"

text \<open>The rounds that share one round function and one constant, over their words.\<close>

fun sha1_rounds :: "(u32 \<Rightarrow> u32 \<Rightarrow> u32 \<Rightarrow> u32) \<Rightarrow> u32 \<Rightarrow> u32 list \<Rightarrow> sha1_state \<Rightarrow> sha1_state" where
  "sha1_rounds f k [] s = s"
| "sha1_rounds f k (w # ws) (a, b, c, d, e) =
     sha1_rounds f k ws (rotl 5 a + f b c d + e + k + w, a, rotl 30 b, c, d)"

definition sha1_add :: "sha1_state \<Rightarrow> sha1_state \<Rightarrow> sha1_state" where
  "sha1_add s t =
     (case s of (h0, h1, h2, h3, h4) \<Rightarrow> case t of (a, b, c, d, e) \<Rightarrow>
        (h0 + a, h1 + b, h2 + c, h3 + d, h4 + e))"

definition sha1_compress :: "sha1_state \<Rightarrow> byte list \<Rightarrow> sha1_state" where
  "sha1_compress h blk =
     (let w = block_words blk; ws = w @ sha1_expand 64 w in
      sha1_add h
        (sha1_rounds parity 0xCA62C1D6 (take 20 (drop 60 ws))
          (sha1_rounds maj 0x8F1BBCDC (take 20 (drop 40 ws))
            (sha1_rounds parity 0x6ED9EBA1 (take 20 (drop 20 ws))
              (sha1_rounds ch 0x5A827999 (take 20 ws) h)))))"

definition sha1_init :: sha1_state where
  "sha1_init = (0x67452301, 0xEFCDAB89, 0x98BADCFE, 0x10325476, 0xC3D2E1F0)"

definition sha1_bytes :: "sha1_state \<Rightarrow> byte list" where
  "sha1_bytes s =
     (case s of (h0, h1, h2, h3, h4) \<Rightarrow>
        u32_bytes h0 @ u32_bytes h1 @ u32_bytes h2 @ u32_bytes h3 @ u32_bytes h4)"

definition sha1 :: "byte list \<Rightarrow> byte list" where
  "sha1 m =
     (let p = sha1_pad m
      in sha1_bytes (foldl sha1_compress sha1_init (sha1_blocks (length p div 64) p)))"

subsection \<open>\<^verbatim>\<open>digest("base64")\<close>\<close>

definition b64_alphabet :: string where
  "b64_alphabet = ''ABCDEFGHIJKLMNOPQRSTUVWXYZabcdefghijklmnopqrstuvwxyz0123456789+/''"

definition b64_char :: "nat \<Rightarrow> char" where
  "b64_char n = b64_alphabet ! n"

fun base64 :: "byte list \<Rightarrow> string" where
  "base64 [] = []"
| "base64 [a] =
     [b64_char (unat a div 4), b64_char (unat a mod 4 * 16), CHR ''='', CHR ''='']"
| "base64 [a, b] =
     [b64_char (unat a div 4), b64_char (unat a mod 4 * 16 + unat b div 16),
      b64_char (unat b mod 16 * 4), CHR ''='']"
| "base64 (a # b # c # bs) =
     [b64_char (unat a div 4), b64_char (unat a mod 4 * 16 + unat b div 16),
      b64_char (unat b mod 16 * 4 + unat c div 64), b64_char (unat c mod 64)] @ base64 bs"

subsection \<open>The functions of the source\<close>

text \<open>
  \<open>generateAcceptKey\<close> receives whatever the header lookup produced: a string, or
  \<^verbatim>\<open>undefined\<close> (here \<open>None\<close>) when the request has no such header. The \<^verbatim>\<open>+\<close> of
  JavaScript turns \<^verbatim>\<open>undefined\<close> into the text \<^verbatim>\<open>"undefined"\<close> before it concatenates.
\<close>

definition magic_guid :: string where
  "magic_guid = ''258EAFA5-E914-47DA-95CA-C5AB0DC85B11''"

definition js_plus :: "jsstring option \<Rightarrow> jsstring \<Rightarrow> jsstring" where
  "js_plus x s = (case x of None \<Rightarrow> js_str ''undefined'' | Some k \<Rightarrow> k) @ s"

definition generateAcceptKey :: "jsstring option \<Rightarrow> jsstring" where
  "generateAcceptKey secWebSocketKey =
     js_str (base64 (sha1 (utf8_encode (js_plus secWebSocketKey (js_str magic_guid)))))"

text \<open>
  The upgrade handler, up to the response it writes: a request carries its URL and its
  headers (by lower-case name); the result is the list of chunks written to the socket.
\<close>

record request =
  url :: jsstring
  headers :: "string \<rightharpoonup> jsstring"

fun js_join :: "jsstring \<Rightarrow> jsstring list \<Rightarrow> jsstring" where
  "js_join sep [] = []"
| "js_join sep [x] = x"
| "js_join sep (x # y # xs) = x @ sep @ js_join sep (y # xs)"

definition crlf :: jsstring where
  "crlf = js_str [CHR 0x0D, CHR 0x0A]"

definition upgrade :: "request \<Rightarrow> jsstring list" where
  "upgrade req =
     (if url req \<noteq> js_str ''/ws'' then [js_str ''HTTP/1.1 404 Not Found'' @ crlf @ crlf]
      else
        (let secWebSocketKey = headers req ''sec-websocket-key'';
             secWebSocketAccept = generateAcceptKey secWebSocketKey;
             responseHeaders =
               [js_str ''HTTP/1.1 101 Switching Protocols'',
                js_str ''Upgrade: websocket'',
                js_str ''Connection: Upgrade'',
                js_str ''Sec-WebSocket-Accept: '' @ secWebSocketAccept,
                [],
                []]
         in [js_join crlf responseHeaders]))"

section \<open>Vocabulary of the statements\<close>

subsection \<open>The layout of a frame\<close>

text \<open>
  The MASK flag is the top bit of byte 1 and the length indicator its low seven bits;
  the payload starts after the two base bytes, the extended length (2 bytes for
  indicator 126, 8 bytes for 127) and, in a masked frame, the 4 bytes of the key.
\<close>

definition frame_masked :: "byte list \<Rightarrow> bool" where
  "frame_masked b \<longleftrightarrow> 1 < length b \<and> 128 \<le> unat (b ! 1)"

definition frame_indicator :: "byte list \<Rightarrow> nat" where
  "frame_indicator b = (if 1 < length b then unat (b ! 1) mod 128 else 0)"

definition frame_data_start :: "byte list \<Rightarrow> nat" where
  "frame_data_start b =
     2 + (if frame_indicator b = 126 then 2 else if frame_indicator b = 127 then 8 else 0)"

definition frame_payload_start :: "byte list \<Rightarrow> nat" where
  "frame_payload_start b = frame_data_start b + (if frame_masked b then 4 else 0)"

definition frame_key :: "byte list \<Rightarrow> byte list" where
  "frame_key b = take 4 (drop (frame_data_start b) b)"

text \<open>Masking and unmasking: byte \<open>i\<close> is combined with byte \<open>i mod 4\<close> of the key.\<close>

definition xor_mask :: "byte list \<Rightarrow> byte list \<Rightarrow> byte list" where
  "xor_mask key bs = map (\<lambda>i. bs ! i XOR key ! (i mod 4)) [0..<length bs]"

text \<open>
  The header of a frame for a payload of \<open>n\<close> bytes, with \<open>flag\<close> the value of the MASK
  bit (128 or 0).
\<close>

definition frame_header :: "nat \<Rightarrow> nat \<Rightarrow> byte list" where
  "frame_header flag n =
     (if n < 126 then [0x81, of_nat (flag + n)]
      else if n < 65536 then [0x81, of_nat (flag + 126)] @ be_bytes 2 n
      else [0x81, of_nat (flag + 127)] @ be_bytes 8 n)"

text \<open>
  The payload length that the header of a buffer declares, when the buffer is long
  enough to hold the length field, and the value of a big-endian byte sequence.
\<close>

definition be_nat :: "byte list \<Rightarrow> nat" where
  "be_nat bs = foldl (\<lambda>v b. v * 256 + unat b) 0 bs"

definition declared_payload_length :: "byte list \<Rightarrow> nat option" where
  "declared_payload_length b =
     (if length b < frame_data_start b then None
      else if frame_indicator b = 126 then Some (be_nat (take 2 (drop 2 b)))
      else if frame_indicator b = 127 then Some (be_nat (take 8 (drop 2 b)))
      else Some (frame_indicator b))"

definition declared_frame_length :: "byte list \<Rightarrow> nat option" where
  "declared_frame_length b = map_option (\<lambda>n. frame_payload_start b + n) (declared_payload_length b)"

text \<open>
  The payload of the first frame of a buffer, as the layout defines it: the declared
  number of bytes from the start of the payload, unmasked when the MASK flag is set.
\<close>

definition first_frame_payload :: "byte list \<Rightarrow> byte list" where
  "first_frame_payload b =
     (let n = (case declared_payload_length b of None \<Rightarrow> 0 | Some n \<Rightarrow> n);
          p = take n (drop (frame_payload_start b) b)
      in if frame_masked b then xor_mask (frame_key b) p else p)"

text \<open>
  The bytes that a buffer holds from the start of the payload to its end, unmasked when
  the MASK flag is set; and the buffers that are shorter than the frame their header
  declares (or too short to hold the length field at all).
\<close>

definition present_payload :: "byte list \<Rightarrow> byte list" where
  "present_payload b =
     (let p = drop (frame_payload_start b) b
      in if frame_masked b then xor_mask (frame_key b) p else p)"

definition truncated :: "byte list \<Rightarrow> bool" where
  "truncated b = (case declared_frame_length b of None \<Rightarrow> True | Some d \<Rightarrow> length b < d)"

subsection \<open>Code points\<close>

text \<open>A scalar value is a code point that is not a surrogate.\<close>

definition scalar :: "nat \<Rightarrow> bool" where
  "scalar c \<longleftrightarrow> c < 0x110000 \<and> (c < 0xD800 \<or> 0xDFFF < c)"

subsection \<open>Base64 text\<close>

fun b64_valid :: "string \<Rightarrow> bool" where
  "b64_valid [] = True"
| "b64_valid [w, x, y, z] =
     (w \<in> set b64_alphabet \<and> x \<in> set b64_alphabet \<and>
      (y = CHR ''='' \<and> z = CHR ''='' \<or>
       y \<in> set b64_alphabet \<and> (z = CHR ''='' \<or> z \<in> set b64_alphabet)))"
| "b64_valid (w # x # y # z # cs) =
     (w \<in> set b64_alphabet \<and> x \<in> set b64_alphabet \<and> y \<in> set b64_alphabet \<and>
      z \<in> set b64_alphabet \<and> b64_valid cs)"
| "b64_valid _ = False"

subsection \<open>Outcomes\<close>

text \<open>
  The errors that the specification names. The source has no \<^verbatim>\<open>throw\<close>, and the
  operations that \<open>parseFrame\<close>, \<open>generateAcceptKey\<close> and the upgrade handler perform
  (indexing, \<^verbatim>\<open>slice\<close>, \<^verbatim>\<open>toString\<close>, string concatenation, hashing) do not raise
  either; the outcome of a call is therefore its normal return.
\<close>

datatype error = MalformedHeaderError | TruncatedFrameError

definition parseFrame_outcome :: "byte list \<Rightarrow> error + jsstring" where
  "parseFrame_outcome buffer = Inr (snd (parseFrame buffer))"

definition generateAcceptKey_outcome :: "jsstring option \<Rightarrow> error + jsstring" where
  "generateAcceptKey_outcome secWebSocketKey = Inr (generateAcceptKey secWebSocketKey)"

definition upgrade_outcome :: "request \<Rightarrow> error + jsstring list" where
  "upgrade_outcome req = Inr (upgrade req)"

section \<open>UTF-8: decoding what was encoded\<close>

lemma unat_byte: "n < 256 \<Longrightarrow> unat (of_nat n :: byte) = n"
  by (simp add: unsigned_of_nat take_bit_nat_eq_self)

lemma decode_Start:
  "x < 256 \<Longrightarrow> utf8_lead x = (out, st) \<Longrightarrow>
   utf8_decode Start (of_nat x # bs) = out @ utf8_decode st bs"
  by (simp add: unat_byte)

lemma decode_Cont_last:
  "lo \<le> x \<Longrightarrow> x \<le> hi \<Longrightarrow> x < 256 \<Longrightarrow>
   utf8_decode (Cont 1 c lo hi) (of_nat x # bs) = utf16_of_cp (c * 0x40 + (x - 0x80)) @ utf8_decode Start bs"
  by (simp add: unat_byte)

lemma decode_Cont_more:
  "lo \<le> x \<Longrightarrow> x \<le> hi \<Longrightarrow> x < 256 \<Longrightarrow> n \<noteq> 1 \<Longrightarrow>
   utf8_decode (Cont n c lo hi) (of_nat x # bs) =
     utf8_decode (Cont (n - 1) (c * 0x40 + (x - 0x80)) 0x80 0xBF) bs"
  by (simp add: unat_byte)

lemma decode_1:
  assumes "c < 0x80"
  shows "utf8_decode Start (utf8_of_cp c @ bs) = utf16_of_cp c @ utf8_decode Start bs"
proof -
  have "utf8_lead c = ([of_nat c], Start)" using assms by (simp add: utf8_lead_def)
  then have "utf8_decode Start (of_nat c # bs) = [of_nat c] @ utf8_decode Start bs"
    using assms by (intro decode_Start) simp_all
  then show ?thesis using assms by (simp add: utf8_of_cp_def utf16_of_cp_def)
qed

lemma decode_2:
  assumes "0x80 \<le> c" "c < 0x800"
  shows "utf8_decode Start (utf8_of_cp c @ bs) = utf16_of_cp c @ utf8_decode Start bs"
proof -
  define a where "a = c div 0x40"
  define b where "b = c mod 0x40"
  define x0 where "x0 = 0xC0 + a"
  define x1 where "x1 = 0x80 + b"
  have c: "c = a * 0x40 + b" and a: "2 \<le> a" "a < 32" and b: "b < 64"
    using assms by (simp_all add: a_def b_def)
  have enc: "utf8_of_cp c = [of_nat x0, of_nat x1]"
    using assms by (simp add: utf8_of_cp_def a_def b_def x0_def x1_def)
  have l: "utf8_lead x0 = ([], Cont 1 a 0x80 0xBF)"
    using a by (simp add: utf8_lead_def x0_def)
  have cp: "a * 0x40 + (x1 - 0x80) = c" by (simp add: x1_def c)
  have "utf8_decode Start (of_nat x0 # of_nat x1 # bs)
          = [] @ utf8_decode (Cont 1 a 0x80 0xBF) (of_nat x1 # bs)"
    using a l by (intro decode_Start) (simp_all add: x0_def)
  also have "\<dots> = utf16_of_cp (a * 0x40 + (x1 - 0x80)) @ utf8_decode Start bs"
    unfolding append_Nil using b by (intro decode_Cont_last) (simp_all add: x1_def)
  finally have "utf8_decode Start (of_nat x0 # of_nat x1 # bs) = utf16_of_cp c @ utf8_decode Start bs"
    unfolding cp .
  then show ?thesis by (simp only: enc append_Cons append_Nil)
qed

lemma split_3: "(c::nat) = (c div 0x1000 * 0x40 + c div 0x40 mod 0x40) * 0x40 + c mod 0x40"
proof -
  have "c div 0x1000 = c div 0x40 div 0x40" by (simp add: div_mult2_eq)
  then show ?thesis by simp
qed

lemma split_4:
  "(c::nat) = ((c div 0x40000 * 0x40 + c div 0x1000 mod 0x40) * 0x40 + c div 0x40 mod 0x40) * 0x40 + c mod 0x40"
proof -
  have "c div 0x1000 = c div 0x40 div 0x40" "c div 0x40000 = c div 0x40 div 0x40 div 0x40"
    by (simp_all add: div_mult2_eq)
  then show ?thesis by simp
qed

lemma decode_3:
  assumes "0x800 \<le> c" "c < 0x10000" "c < 0xD800 \<or> 0xDFFF < c"
  shows "utf8_decode Start (utf8_of_cp c @ bs) = utf16_of_cp c @ utf8_decode Start bs"
proof -
  define a where "a = c div 0x1000"
  define b where "b = c div 0x40 mod 0x40"
  define d where "d = c mod 0x40"
  define x0 where "x0 = 0xE0 + a"
  define x1 where "x1 = 0x80 + b"
  define x2 where "x2 = 0x80 + d"
  define lo :: nat where "lo = (if x0 = 0xE0 then 0xA0 else 0x80)"
  define hi :: nat where "hi = (if x0 = 0xED then 0x9F else 0xBF)"
  have c: "c = (a * 0x40 + b) * 0x40 + d"
    unfolding a_def b_def d_def by (rule split_3)
  have a: "a < 16" and b: "b < 64" and d: "d < 64"
    using assms by (simp_all add: a_def b_def d_def)
  have lo: "lo \<le> x1"
  proof (cases "a = 0")
    case True
    with assms(1) c d have "32 \<le> b" by simp
    then show ?thesis by (simp add: lo_def x1_def)
  next
    case False
    then show ?thesis by (simp add: lo_def x0_def x1_def)
  qed
  have hi: "x1 \<le> hi"
  proof (cases "a = 13")
    case True
    with assms(3) c d b have "b < 32" by simp
    then show ?thesis by (simp add: hi_def x1_def)
  next
    case False
    then show ?thesis using b by (simp add: hi_def x0_def x1_def)
  qed
  have enc: "utf8_of_cp c = [of_nat x0, of_nat x1, of_nat x2]"
    using assms by (simp add: utf8_of_cp_def a_def b_def d_def x0_def x1_def x2_def)
  have l: "utf8_lead x0 = ([], Cont 2 a lo hi)"
    using a by (simp add: utf8_lead_def x0_def lo_def hi_def)
  have cp: "(a * 0x40 + (x1 - 0x80)) * 0x40 + (x2 - 0x80) = c" by (simp add: x1_def x2_def c)
  have "utf8_decode Start (of_nat x0 # of_nat x1 # of_nat x2 # bs)
          = [] @ utf8_decode (Cont 2 a lo hi) (of_nat x1 # of_nat x2 # bs)"
    using a l by (intro decode_Start) (simp_all add: x0_def)
  also have "\<dots> = utf8_decode (Cont (2 - 1) (a * 0x40 + (x1 - 0x80)) 0x80 0xBF) (of_nat x2 # bs)"
    unfolding append_Nil using lo hi b by (intro decode_Cont_more) (simp_all add: x1_def)
  also have "\<dots> = utf8_decode (Cont 1 (a * 0x40 + (x1 - 0x80)) 0x80 0xBF) (of_nat x2 # bs)"
    by simp
  also have "\<dots> = utf16_of_cp ((a * 0x40 + (x1 - 0x80)) * 0x40 + (x2 - 0x80)) @ utf8_decode Start bs"
    using d by (intro decode_Cont_last) (simp_all add: x2_def)
  finally have "utf8_decode Start (of_nat x0 # of_nat x1 # of_nat x2 # bs)
                  = utf16_of_cp c @ utf8_decode Start bs"
    unfolding cp .
  then show ?thesis by (simp only: enc append_Cons append_Nil)
qed

lemma decode_4:
  assumes "0x10000 \<le> c" "c < 0x110000"
  shows "utf8_decode Start (utf8_of_cp c @ bs) = utf16_of_cp c @ utf8_decode Start bs"
proof -
  define a where "a = c div 0x40000"
  define b where "b = c div 0x1000 mod 0x40"
  define d where "d = c div 0x40 mod 0x40"
  define e where "e = c mod 0x40"
  define x0 where "x0 = 0xF0 + a"
  define x1 where "x1 = 0x80 + b"
  define x2 where "x2 = 0x80 + d"
  define x3 where "x3 = 0x80 + e"
  define lo :: nat where "lo = (if x0 = 0xF0 then 0x90 else 0x80)"
  define hi :: nat where "hi = (if x0 = 0xF4 then 0x8F else 0xBF)"
  have c: "c = ((a * 0x40 + b) * 0x40 + d) * 0x40 + e"
    unfolding a_def b_def d_def e_def by (rule split_4)
  have a: "a < 5" and b: "b < 64" and d: "d < 64" and e: "e < 64"
    using assms by (simp_all add: a_def b_def d_def e_def)
  have lo: "lo \<le> x1"
  proof (cases "a = 0")
    case True
    with assms(1) c d e have "16 \<le> b" by simp
    then show ?thesis by (simp add: lo_def x1_def)
  next
    case False
    then show ?thesis by (simp add: lo_def x0_def x1_def)
  qed
  have hi: "x1 \<le> hi"
  proof (cases "a = 4")
    case True
    with assms(2) c d e b have "b < 16" by simp
    then show ?thesis by (simp add: hi_def x1_def)
  next
    case False
    then show ?thesis using b by (simp add: hi_def x0_def x1_def)
  qed
  have enc: "utf8_of_cp c = [of_nat x0, of_nat x1, of_nat x2, of_nat x3]"
    using assms by (simp add: utf8_of_cp_def a_def b_def d_def e_def x0_def x1_def x2_def x3_def)
  have l: "utf8_lead x0 = ([], Cont 3 a lo hi)"
    using a by (simp add: utf8_lead_def x0_def lo_def hi_def)
  have cp: "((a * 0x40 + (x1 - 0x80)) * 0x40 + (x2 - 0x80)) * 0x40 + (x3 - 0x80) = c"
    by (simp add: x1_def x2_def x3_def c)
  have "utf8_decode Start (of_nat x0 # of_nat x1 # of_nat x2 # of_nat x3 # bs)
          = [] @ utf8_decode (Cont 3 a lo hi) (of_nat x1 # of_nat x2 # of_nat x3 # bs)"
    using a l by (intro decode_Start) (simp_all add: x0_def)
  also have "\<dots> = utf8_decode (Cont (3 - 1) (a * 0x40 + (x1 - 0x80)) 0x80 0xBF)
                        (of_nat x2 # of_nat x3 # bs)"
    unfolding append_Nil using lo hi b by (intro decode_Cont_more) (simp_all add: x1_def)
  also have "\<dots> = utf8_decode (Cont 2 (a * 0x40 + (x1 - 0x80)) 0x80 0xBF)
                        (of_nat x2 # of_nat x3 # bs)"
    by simp
  also have "\<dots> = utf8_decode (Cont (2 - 1) ((a * 0x40 + (x1 - 0x80)) * 0x40 + (x2 - 0x80)) 0x80 0xBF)
                        (of_nat x3 # bs)"
    using d by (intro decode_Cont_more) (simp_all add: x2_def)
  also have "\<dots> = utf8_decode (Cont 1 ((a * 0x40 + (x1 - 0x80)) * 0x40 + (x2 - 0x80)) 0x80 0xBF)
                        (of_nat x3 # bs)"
    by simp
  also have "\<dots> = utf16_of_cp (((a * 0x40 + (x1 - 0x80)) * 0x40 + (x2 - 0x80)) * 0x40 + (x3 - 0x80))
                        @ utf8_decode Start bs"
    using e by (intro decode_Cont_last) (simp_all add: x3_def)
  finally have "utf8_decode Start (of_nat x0 # of_nat x1 # of_nat x2 # of_nat x3 # bs)
                  = utf16_of_cp c @ utf8_decode Start bs"
    unfolding cp .
  then show ?thesis by (simp only: enc append_Cons append_Nil)
qed

lemma decode_scalar:
  "scalar c \<Longrightarrow> utf8_decode Start (utf8_of_cp c @ bs) = utf16_of_cp c @ utf8_decode Start bs"
  using decode_1 [of c bs] decode_2 [of c bs] decode_3 [of c bs] decode_4 [of c bs]
  unfolding scalar_def by linarith

lemma unit_scalar:
  assumes "\<not> is_high u" "\<not> is_low u"
  shows "scalar (unat u)" and "utf16_of_cp (unat u) = [u]"
proof -
  have less: "unat u < 65536" using unsigned_less [of u] by simp
  show "scalar (unat u)" using assms less by (auto simp add: scalar_def is_high_def is_low_def)
  show "utf16_of_cp (unat u) = [u]" using less by (simp add: utf16_of_cp_def)
qed

lemma pair_scalar:
  assumes "is_high h" "is_low l"
  shows "scalar (cp_of_pair h l)" and "utf16_of_cp (cp_of_pair h l) = [h, l]"
proof -
  define a where "a = unat h - 0xD800"
  define b where "b = unat l - 0xDC00"
  have h: "unat h = 0xD800 + a" and a: "a < 0x400" and l: "unat l = 0xDC00 + b" and b: "b < 0x400"
    using assms unfolding is_high_def is_low_def a_def b_def by linarith+
  have cp: "cp_of_pair h l = 0x10000 + (a * 0x400 + b)"
    by (simp add: cp_of_pair_def a_def b_def)
  show "scalar (cp_of_pair h l)" using a b by (simp add: cp scalar_def)
  have "of_nat (0xD800 + a) = h" "of_nat (0xDC00 + b) = l"
    unfolding h [symmetric] l [symmetric] by simp_all
  then show "utf16_of_cp (cp_of_pair h l) = [h, l]"
    using a b unfolding cp utf16_of_cp_def by simp
qed

theorem toString_utf8_encode: "well_formed s \<Longrightarrow> toString (utf8_encode s) = s"
  unfolding toString_def
proof (induction s rule: utf8_encode.induct)
  case 1
  then show ?case by simp
next
  case (2 u)
  then have n: "\<not> is_high u" "\<not> is_low u" by simp_all
  show ?case
    using decode_scalar [OF unit_scalar(1) [OF n], of "[]"] n by (simp add: unit_scalar(2))
next
  case (3 u l us)
  show ?case
  proof (cases "is_high u")
    case True
    with 3(4) have low: "is_low l" and wf: "well_formed us" by simp_all
    have "utf8_decode Start (utf8_encode us) = us" using 3(1) True low wf by simp
    then show ?thesis
      using True low decode_scalar [OF pair_scalar(1) [OF True low], of "utf8_encode us"]
      by (simp add: pair_scalar(2))
  next
    case False
    with 3(4) have n: "\<not> is_high u" "\<not> is_low u" and wf: "well_formed (l # us)" by simp_all
    have "utf8_decode Start (utf8_encode (l # us)) = l # us" using 3(3) n wf by simp
    then show ?thesis
      using n decode_scalar [OF unit_scalar(1) [OF n], of "utf8_encode (l # us)"]
      by (simp add: unit_scalar(2))
  qed
qed

lemma utf8_encode_append:
  "ys = [] \<or> \<not> is_low (hd ys) \<Longrightarrow> utf8_encode (xs @ ys) = utf8_encode xs @ utf8_encode ys"
proof (induction xs rule: utf8_encode.induct)
  case 1
  then show ?case by simp
next
  case (2 u)
  then show ?case by (cases ys) auto
next
  case (3 u l us)
  then show ?case by auto
qed

lemma utf8_encode_ascii:
  "\<forall>u \<in> set us. unat u < 0x80 \<Longrightarrow> utf8_encode us = map (\<lambda>u. of_nat (unat u)) us"
proof (induction us rule: utf8_encode.induct)
  case 1
  then show ?case by simp
next
  case (2 u)
  then show ?case by (simp add: is_high_def is_low_def utf8_of_cp_def)
next
  case (3 u l us)
  then show ?case by (simp add: is_high_def is_low_def utf8_of_cp_def)
qed

section \<open>What \<open>parseFrame\<close> computes\<close>

lemma and_exp_nat: "(n::nat) AND 2 ^ k = (if bit n k then 2 ^ k else 0)"
  by (rule bit_eqI) (auto simp add: bit_simps)

lemma byte_and_128: "(unat (x::byte) AND 128 = 128) \<longleftrightarrow> 128 \<le> unat x"
proof -
  have "unat x < 256" using unsigned_less [of x] by simp
  then have "odd (unat x div 128) \<longleftrightarrow> 128 \<le> unat x"
  proof (cases "128 \<le> unat x")
    case True
    with \<open>unat x < 256\<close> have "unat x div 128 = 1" by simp
    with True show ?thesis by simp
  next
    case False
    then show ?thesis by simp
  qed
  then show ?thesis using and_exp_nat [of "unat x" 7] by (simp add: bit_iff_odd)
qed

lemma byte_and_127: "unat (x::byte) AND 127 = unat x mod 128"
proof -
  have "unat x AND mask 7 = unat x mod 2 ^ 7"
    by (simp only: take_bit_eq_mask [symmetric] take_bit_eq_mod)
  then show ?thesis by (simp add: mask_eq_exp_minus_1)
qed

lemma js_and_128: "(js_and (view_get b (whole b) 1) 128 = 128) \<longleftrightarrow> frame_masked b"
  by (simp add: js_and_def view_get_def whole_def frame_masked_def byte_and_128)

lemma js_and_127: "js_and (view_get b (whole b) 1) 127 = frame_indicator b"
  by (simp add: js_and_def view_get_def whole_def frame_indicator_def byte_and_127)

lemma unmask_loop_inv:
  assumes "byteOffset p + byteLength p = length mem"
    and "byteOffset k + 4 \<le> byteOffset p"
    and "byteLength k = 4"
    and "i \<le> byteLength p"
  shows "unmask_loop p k i mem =
           take (byteOffset p + i) mem @
           map (\<lambda>j. mem ! (byteOffset p + j) XOR mem ! (byteOffset k + j mod 4)) [i..<byteLength p]"
  using assms
proof (induction "byteLength p - i" arbitrary: i mem)
  case 0
  then have "i = byteLength p" by simp
  with 0 show ?case by (simp add: unmask_loop.simps)
next
  case (Suc d)
  then have less: "i < byteLength p" by simp
  define x where "x = mem ! (byteOffset p + i) XOR mem ! (byteOffset k + i mod 4)"
  define mem' where "mem' = mem[byteOffset p + i := x]"
  have step: "unmask_loop p k i mem = unmask_loop p k (i + 1) mem'"
    using less Suc.prems(3)
    by (subst unmask_loop.simps) (simp add: view_set_def view_get_def js_xor_def mem'_def x_def)
  have len: "length mem' = length mem" by (simp add: mem'_def)
  have ih: "unmask_loop p k (i + 1) mem' =
              take (byteOffset p + (i + 1)) mem' @
              map (\<lambda>j. mem' ! (byteOffset p + j) XOR mem' ! (byteOffset k + j mod 4))
                [i + 1..<byteLength p]"
    using Suc.hyps(2) Suc.prems less len by (intro Suc.hyps(1)) simp_all
  have inb: "byteOffset p + i < length mem" using less Suc.prems(1) by simp
  have t: "take (byteOffset p + (i + 1)) mem' = take (byteOffset p + i) mem @ [x]"
    using inb by (simp add: mem'_def take_Suc_conv_app_nth)
  have m: "map (\<lambda>j. mem' ! (byteOffset p + j) XOR mem' ! (byteOffset k + j mod 4)) [i + 1..<byteLength p]
         = map (\<lambda>j. mem ! (byteOffset p + j) XOR mem ! (byteOffset k + j mod 4)) [i + 1..<byteLength p]"
  proof (rule map_cong [OF refl])
    fix j assume "j \<in> set [i + 1..<byteLength p]"
    then have j: "i < j" by simp
    have "j mod 4 < 4" by simp
    then have "byteOffset k + j mod 4 < byteOffset p + i" using Suc.prems(2) by linarith
    then show "mem' ! (byteOffset p + j) XOR mem' ! (byteOffset k + j mod 4)
             = mem ! (byteOffset p + j) XOR mem ! (byteOffset k + j mod 4)"
      using j by (simp add: mem'_def)
  qed
  have u: "[i..<byteLength p] = i # [i + 1..<byteLength p]"
    using less by (simp add: upt_conv_Cons)
  show ?case by (simp only: step ih t m u) (simp add: x_def)
qed

lemma unmask_loop_whole:
  assumes "ds + 4 \<le> length b"
  shows "unmask_loop (buf_slice (whole b) (ds + 4) None) (buf_slice (whole b) ds (Some (ds + 4))) 0 b
         = take (ds + 4) b @ xor_mask (take 4 (drop ds b)) (drop (ds + 4) b)"
proof -
  let ?p = "buf_slice (whole b) (ds + 4) None" and ?k = "buf_slice (whole b) ds (Some (ds + 4))"
  have p: "byteOffset ?p = ds + 4" "byteLength ?p = length b - (ds + 4)"
    using assms by (simp_all add: buf_slice_def whole_def Let_def)
  have k: "byteOffset ?k = ds" "byteLength ?k = 4"
    using assms by (simp_all add: buf_slice_def whole_def Let_def)
  have "unmask_loop ?p ?k 0 b =
          take (byteOffset ?p + 0) b @
          map (\<lambda>j. b ! (byteOffset ?p + j) XOR b ! (byteOffset ?k + j mod 4)) [0..<byteLength ?p]"
    using assms by (intro unmask_loop_inv) (simp_all add: p k)
  also have "map (\<lambda>j. b ! (byteOffset ?p + j) XOR b ! (byteOffset ?k + j mod 4)) [0..<byteLength ?p]
           = xor_mask (take 4 (drop ds b)) (drop (ds + 4) b)"
    unfolding xor_mask_def using assms
    by (auto simp add: p k intro!: map_cong)
  finally show ?thesis by (simp add: p)
qed

lemma unmask_loop_short:
  assumes "length b < ds + 4"
  shows "unmask_loop (buf_slice (whole b) (ds + 4) None) (buf_slice (whole b) ds (Some (ds + 4))) 0 b = b"
  using assms by (subst unmask_loop.simps) (simp add: buf_slice_def whole_def Let_def)

lemma view_bytes_tail:
  "length b' = length b \<Longrightarrow> view_bytes b' (buf_slice (whole b) n None) = drop n b'"
  by (simp add: view_bytes_def buf_slice_def whole_def Let_def min_def)


lemma parseFrame_unfold:
  "parseFrame b =
     (let dataStart = frame_data_start b;
          payloadData = buf_slice (whole b) (dataStart + (if frame_masked b then 4 else 0)) None;
          b' = (if frame_masked b
                then unmask_loop payloadData (buf_slice (whole b) dataStart (Some (dataStart + 4))) 0 b
                else b)
      in (b', toString (view_bytes b' payloadData)))"
  by (simp only: parseFrame_def Let_def js_and_128 js_and_127 frame_data_start_def)
     (simp split: if_splits)

lemma length_xor_mask [simp]: "length (xor_mask k bs) = length bs"
  by (simp add: xor_mask_def)

lemma xor_mask_Nil [simp]: "xor_mask k [] = []"
  by (simp add: xor_mask_def)

theorem parseFrame_unmasked:
  assumes "\<not> frame_masked b"
  shows "parseFrame b = (b, toString (drop (frame_data_start b) b))"
  using assms by (simp add: parseFrame_unfold view_bytes_tail)

theorem parseFrame_masked:
  assumes "frame_masked b"
  shows "parseFrame b =
           (take (frame_data_start b + 4) b @
              xor_mask (take 4 (drop (frame_data_start b) b)) (drop (frame_data_start b + 4) b),
            toString (xor_mask (take 4 (drop (frame_data_start b) b)) (drop (frame_data_start b + 4) b)))"
proof (cases "frame_data_start b + 4 \<le> length b")
  case True
  show ?thesis using assms True
    by (simp add: parseFrame_unfold Let_def unmask_loop_whole view_bytes_tail)
next
  case False
  then have s: "length b < frame_data_start b + 4" by simp
  show ?thesis using assms s
    by (simp add: parseFrame_unfold Let_def unmask_loop_short view_bytes_tail)
qed

section \<open>What \<open>sendMessage\<close> builds\<close>

lemma or_exp_nat: "n < 2 ^ k \<Longrightarrow> (2 ^ k :: nat) OR n = 2 ^ k + n"
proof -
  assume less: "n < 2 ^ k"
  then have nb: "\<not> bit n k" by (simp add: bit_iff_odd)
  have "(2 ^ k :: nat) OR n = set_bit k n"
    by (simp add: set_bit_eq_or or.commute)
  also have "\<dots> = n + 2 ^ k" using nb by (simp add: set_bit_eq)
  finally show ?thesis by simp
qed

lemma or_128: "n < 128 \<Longrightarrow> (128::nat) OR n = 128 + n"
  using or_exp_nat [of n 7] by simp

lemma length_be_bytes [simp]: "length (be_bytes k v) = k"
  by (induction k) simp_all

lemma buf_write_append:
  "length bs \<le> length r \<Longrightarrow> buf_write (h @ r) (length h) bs = h @ bs @ drop (length bs) r"
  by (simp add: buf_write_def)

lemma buf_write_append':
  "length h = k \<Longrightarrow> length bs \<le> length r \<Longrightarrow> buf_write (h @ r) k bs = h @ bs @ drop (length bs) r"
  using buf_write_append by blast

lemma alloc_small:
  "buf_set (buf_set (Buffer_alloc (2 + r)) 1 v) 0 0x81 = [0x81, of_nat v] @ replicate r 0"
  by (simp add: buf_set_def Buffer_alloc_def)

lemma alloc_medium:
  "buf_set (writeUInt16BE (buf_set (Buffer_alloc (4 + r)) 1 v) n 2) 0 0x81
     = ([0x81, of_nat v] @ be_bytes 2 n) @ replicate r 0"
proof -
  have "buf_set (Buffer_alloc (4 + r)) 1 v = [0, of_nat v] @ replicate (2 + r) 0"
    by (simp add: buf_set_def Buffer_alloc_def eval_nat_numeral)
  then have "writeUInt16BE (buf_set (Buffer_alloc (4 + r)) 1 v) n 2
               = [0, of_nat v] @ be_bytes 2 n @ replicate r 0"
    by (simp only: writeUInt16BE_def) (subst buf_write_append', simp_all)
  then show ?thesis by (simp add: buf_set_def)
qed

lemma alloc_large:
  "buf_set (writeBigUInt64BE (buf_set (Buffer_alloc (10 + r)) 1 v) n 2) 0 0x81
     = ([0x81, of_nat v] @ be_bytes 8 n) @ replicate r 0"
proof -
  have "buf_set (Buffer_alloc (10 + r)) 1 v = [0, of_nat v] @ replicate (8 + r) 0"
    by (simp add: buf_set_def Buffer_alloc_def eval_nat_numeral)
  then have "writeBigUInt64BE (buf_set (Buffer_alloc (10 + r)) 1 v) n 2
               = [0, of_nat v] @ be_bytes 8 n @ replicate r 0"
    by (simp only: writeBigUInt64BE_def) (subst buf_write_append', simp_all)
  then show ?thesis by (simp add: buf_set_def)
qed

lemma mask_loop_inv:
  "i \<le> length p \<Longrightarrow>
   mask_loop k i p = take i p @ map (\<lambda>j. p ! j XOR k ! (j mod 4)) [i..<length p]"
proof (induction "length p - i" arbitrary: i p)
  case 0
  then show ?case by (simp add: mask_loop.simps)
next
  case (Suc d)
  then have less: "i < length p" by simp
  define p' where "p' = p[i := p ! i XOR k ! (i mod 4)]"
  have step: "mask_loop k i p = mask_loop k (i + 1) p'"
    using less by (subst mask_loop.simps) (simp add: p'_def)
  have ih: "mask_loop k (i + 1) p' =
              take (i + 1) p' @ map (\<lambda>j. p' ! j XOR k ! (j mod 4)) [i + 1..<length p']"
    using Suc.hyps(2) less by (intro Suc.hyps(1)) (simp_all add: p'_def)
  have t: "take (i + 1) p' = take i p @ [p ! i XOR k ! (i mod 4)]"
    using less by (simp add: p'_def take_Suc_conv_app_nth)
  have m: "map (\<lambda>j. p' ! j XOR k ! (j mod 4)) [i + 1..<length p']
         = map (\<lambda>j. p ! j XOR k ! (j mod 4)) [i + 1..<length p]"
    by (rule map_cong) (simp_all add: p'_def)
  have u: "[i..<length p] = i # [i + 1..<length p]"
    using less by (simp add: upt_conv_Cons)
  show ?case by (simp only: step ih t m u) simp
qed

lemma mask_loop_eq: "mask_loop k 0 p = xor_mask k p"
  by (simp add: mask_loop_inv xor_mask_def)


lemma length_random_mask [simp]: "length (random_mask random) = 4"
  by (simp add: random_mask_def)

lemma frame_tail_server:
  assumes "length p = n"
  shows "buf_copy p (h @ replicate n 0) (length (h @ replicate n 0) - n) = h @ p"
  using assms by (simp add: buf_copy_def buf_write_def)

lemma frame_tail_client:
  assumes "length p' = n" and "length key = 4"
  shows "buf_copy p' (buf_copy key (h @ replicate (4 + n) 0) (length (h @ replicate (4 + n) 0) - n - 4))
           (length (buf_copy key (h @ replicate (4 + n) 0) (length (h @ replicate (4 + n) 0) - n - 4)) - n)
         = h @ key @ p'"
proof -
  have k: "buf_copy key (h @ replicate (4 + n) 0) (length (h @ replicate (4 + n) 0) - n - 4)
           = h @ key @ replicate n 0"
    using assms by (simp add: buf_copy_def buf_write_def)
  show ?thesis unfolding k using assms by (simp add: buf_copy_def buf_write_def)
qed

lemma frame_header_simps:
  "n < 126 \<Longrightarrow> frame_header f n = [0x81, of_nat (f + n)]"
  "126 \<le> n \<Longrightarrow> n < 65536 \<Longrightarrow> frame_header f n = [0x81, of_nat (f + 126)] @ be_bytes 2 n"
  "65536 \<le> n \<Longrightarrow> frame_header f n = [0x81, of_nat (f + 127)] @ be_bytes 8 n"
  by (simp_all add: frame_header_def)

lemma build_frame_server:
  "build_frame False random m = frame_header 0 (length (utf8_encode m)) @ utf8_encode m"
proof -
  define p where "p = utf8_encode m"
  define n where "n = length p"
  have len: "length p = n" by (simp add: n_def)
  consider "n < 126" | "126 \<le> n" "n < 65536" | "65536 \<le> n" by linarith
  then have "build_frame False random m = frame_header 0 n @ p"
  proof cases
    case 1
    let ?h = "[0x81, of_nat n] :: byte list"
    have "build_frame False random m = buf_copy p (?h @ replicate n 0) (length (?h @ replicate n 0) - n)"
      using 1 unfolding build_frame_def Let_def p_def [symmetric] n_def [symmetric]
      using alloc_small [of n n] by simp
    also have "\<dots> = ?h @ p" by (rule frame_tail_server [OF len])
    finally show ?thesis using 1 by (simp add: frame_header_simps)
  next
    case 2
    let ?h = "[0x81, 126] @ be_bytes 2 n :: byte list"
    have "build_frame False random m = buf_copy p (?h @ replicate n 0) (length (?h @ replicate n 0) - n)"
      using 2 unfolding build_frame_def Let_def p_def [symmetric] n_def [symmetric]
      using alloc_medium [of n 126 n] by simp
    also have "\<dots> = ?h @ p" by (rule frame_tail_server [OF len])
    finally show ?thesis using 2 by (simp add: frame_header_simps)
  next
    case 3
    let ?h = "[0x81, 127] @ be_bytes 8 n :: byte list"
    have "build_frame False random m = buf_copy p (?h @ replicate n 0) (length (?h @ replicate n 0) - n)"
      using 3 unfolding build_frame_def Let_def p_def [symmetric] n_def [symmetric]
      using alloc_large [of n 127 n] by simp
    also have "\<dots> = ?h @ p" by (rule frame_tail_server [OF len])
    finally show ?thesis using 3 by (simp add: frame_header_simps)
  qed
  then show ?thesis by (simp add: p_def n_def)
qed

lemma build_frame_client:
  "build_frame True random m =
     frame_header 128 (length (utf8_encode m)) @ random_mask random @
     xor_mask (random_mask random) (utf8_encode m)"
proof -
  define p where "p = utf8_encode m"
  define n where "n = length p"
  define key where "key = random_mask random"
  define p' where "p' = xor_mask key p"
  have len: "length p = n" and lenk: "length key = 4" and len': "length p' = n"
    by (simp_all add: n_def key_def p'_def)
  have tail: "buf_copy p' (buf_copy key (h @ replicate (4 + n) 0) (length (h @ replicate (4 + n) 0) - n - 4))
           (length (buf_copy key (h @ replicate (4 + n) 0) (length (h @ replicate (4 + n) 0) - n - 4)) - n)
         = h @ key @ p'" for h
    by (rule frame_tail_client [OF len' lenk])
  consider "n < 126" | "126 \<le> n" "n < 65536" | "65536 \<le> n" by linarith
  then have "build_frame True random m = frame_header 128 n @ key @ p'"
  proof cases
    case 1
    let ?h = "[0x81, of_nat (128 + n)] :: byte list"
    let ?f = "?h @ replicate (4 + n) 0"
    have "build_frame True random m =
            buf_copy p' (buf_copy key ?f (length ?f - n - 4)) (length (buf_copy key ?f (length ?f - n - 4)) - n)"
      using 1 unfolding build_frame_def Let_def p_def [symmetric] n_def [symmetric] key_def [symmetric]
        mask_loop_eq p'_def [symmetric]
      using alloc_small [of "4 + n" "128 + n"] by (simp add: or_128)
    also have "\<dots> = ?h @ key @ p'" by (rule tail)
    finally show ?thesis using 1 by (simp add: frame_header_simps)
  next
    case 2
    let ?h = "[0x81, 254] @ be_bytes 2 n :: byte list"
    let ?f = "?h @ replicate (4 + n) 0"
    have "build_frame True random m =
            buf_copy p' (buf_copy key ?f (length ?f - n - 4)) (length (buf_copy key ?f (length ?f - n - 4)) - n)"
      using 2 unfolding build_frame_def Let_def p_def [symmetric] n_def [symmetric] key_def [symmetric]
        mask_loop_eq p'_def [symmetric]
      using alloc_medium [of "4 + n" 254 n] by (simp add: or_128)
    also have "\<dots> = ?h @ key @ p'" by (rule tail)
    finally show ?thesis using 2 by (simp add: frame_header_simps)
  next
    case 3
    let ?h = "[0x81, 255] @ be_bytes 8 n :: byte list"
    let ?f = "?h @ replicate (4 + n) 0"
    have "build_frame True random m =
            buf_copy p' (buf_copy key ?f (length ?f - n - 4)) (length (buf_copy key ?f (length ?f - n - 4)) - n)"
      using 3 unfolding build_frame_def Let_def p_def [symmetric] n_def [symmetric] key_def [symmetric]
        mask_loop_eq p'_def [symmetric]
      using alloc_large [of "4 + n" 255 n] by (simp add: or_128)
    also have "\<dots> = ?h @ key @ p'" by (rule tail)
    finally show ?thesis using 3 by (simp add: frame_header_simps)
  qed
  then show ?thesis by (simp add: p_def n_def key_def p'_def)
qed

section \<open>Decoding a frame that was built\<close>

lemma length_frame_header:
  "length (frame_header flag n) = (if n < 126 then 2 else if n < 65536 then 4 else 10)"
  by (simp add: frame_header_def)

lemma frame_header_second:
  assumes "flag = 0 \<or> flag = 128"
  shows "unat ((frame_header flag n @ rest) ! 1) =
           flag + (if n < 126 then n else if n < 65536 then 126 else 127)"
proof -
  define k where "k = (if n < 126 then n else if n < 65536 then 126 else 127)"
  have "(frame_header flag n @ rest) ! 1 = of_nat (flag + k)"
    by (simp add: frame_header_def k_def)
  moreover have "flag + k < 256" using assms by (auto simp add: k_def)
  ultimately show ?thesis by (simp only: unat_byte k_def)
qed

lemma frame_header_layout:
  assumes "flag = 0 \<or> flag = 128"
  shows "frame_masked (frame_header flag n @ rest) \<longleftrightarrow> flag = 128"
    and "frame_data_start (frame_header flag n @ rest) = length (frame_header flag n)"
proof -
  let ?f = "frame_header flag n @ rest"
  have len: "1 < length ?f" by (simp add: length_frame_header)
  note sec = frame_header_second [OF assms, of n rest]
  show "frame_masked ?f \<longleftrightarrow> flag = 128"
    using assms len unfolding frame_masked_def sec by auto
  have ind: "frame_indicator ?f = (if n < 126 then n else if n < 65536 then 126 else 127)"
    using assms len unfolding frame_indicator_def sec by auto
  show "frame_data_start ?f = length (frame_header flag n)"
    unfolding frame_data_start_def ind length_frame_header by auto
qed

lemma parseFrame_server_frame:
  "parseFrame (frame_header 0 n @ p) = (frame_header 0 n @ p, toString p)"
proof -
  have "\<not> frame_masked (frame_header 0 n @ p)"
    by (simp add: frame_header_layout(1))
  then show ?thesis
    by (simp add: parseFrame_unmasked frame_header_layout(2))
qed


section \<open>Evaluating SHA-1\<close>

text \<open>
  Rewrite rules that keep every intermediate word below \<open>2 ^ 32\<close>, so that the
  simplifier computes with small numerals.
\<close>

lemma rotl_eval: "rotl n w = take_bit 32 (push_bit n w) OR drop_bit (32 - n) w"
  by (simp add: rotl_def take_bit_word_eq_self)

lemma ch_eval: "ch b c d = take_bit 32 ((b AND c) OR (NOT b AND d))"
  by (simp add: ch_def take_bit_word_eq_self)

lemma sha1_rounds_eval:
  "sha1_rounds f k (w # ws) (a, b, c, d, e) =
     sha1_rounds f k ws (take_bit 32 (rotl 5 a + f b c d + e + k + w), a, rotl 30 b, c, d)"
  by (simp add: take_bit_word_eq_self)

lemma sha1_add_eval:
  "sha1_add (h0, h1, h2, h3, h4) (a, b, c, d, e) =
     (take_bit 32 (h0 + a), take_bit 32 (h1 + b), take_bit 32 (h2 + c),
      take_bit 32 (h3 + d), take_bit 32 (h4 + e))"
  by (simp add: sha1_add_def take_bit_word_eq_self)

lemma sha1_expand_numeral:
  "sha1_expand (numeral k) win =
     sha1_next win # sha1_expand (pred_numeral k) (tl win @ [sha1_next win])"
  by (simp only: numeral_eq_Suc [of k] sha1_expand.simps)

lemma sha1_blocks_numeral:
  "sha1_blocks (numeral k) bs = take 64 bs # sha1_blocks (pred_numeral k) (drop 64 bs)"
  by (simp only: numeral_eq_Suc [of k] sha1_blocks.simps)

lemma replicate_numeral: "replicate (numeral k) x = x # replicate (pred_numeral k) x"
  by (simp only: numeral_eq_Suc [of k] replicate.simps)

lemma sha1_compress_staged:
  assumes "block_words blk = w" and "sha1_expand 64 w = e"
    and "sha1_rounds ch 0x5A827999 (take 20 (w @ e)) h = s1"
    and "sha1_rounds parity 0x6ED9EBA1 (take 20 (drop 20 (w @ e))) s1 = s2"
    and "sha1_rounds maj 0x8F1BBCDC (take 20 (drop 40 (w @ e))) s2 = s3"
    and "sha1_rounds parity 0xCA62C1D6 (take 20 (drop 60 (w @ e))) s3 = s4"
  shows "sha1_compress h blk = sha1_add h s4"
  unfolding sha1_compress_def Let_def assms ..

subsection \<open>The first block of the sample key followed by the GUID\<close>

lemma rfc1_words:
  "block_words
     [100, 71, 104, 108, 73, 72, 78, 104, 98, 88, 66, 115, 90, 83, 66, 117,
     98, 50, 53, 106, 90, 81, 61, 61, 50, 53, 56, 69, 65, 70, 65, 53,
     45, 69, 57, 49, 52, 45, 52, 55, 68, 65, 45, 57, 53, 67, 65, 45,
     67, 53, 65, 66, 48, 68, 67, 56, 53, 66, 49, 49, 128, 0, 0, 0]
   = [1682401388, 1229475432, 1649951347, 1515405941, 1647457642, 1515273533,
     842348613, 1095123253, 759511345, 875377719, 1145122105, 893600045,
     1127563586, 809780024, 893530417, 2147483648]"
  by (simp add: be32_def)

lemma rfc1_expand:
  "sha1_expand 64
     [1682401388, 1229475432, 1649951347, 1515405941, 1647457642, 1515273533,
     842348613, 1095123253, 759511345, 875377719, 1145122105, 893600045,
     1127563586, 809780024, 893530417, 2147483648]
   = [909942828, 619188790, 2287383617, 117128338, 1874115766, 1175131875,
     1502747054, 901747561, 845628814, 4163435780, 1966773927, 1664546322,
     3285607299, 116098809, 1941241154, 2768487864, 365801013, 1394499013,
     1874245584, 1813439660, 1306343101, 903047494, 3903753116, 1251162832,
     3464898740, 1096661662, 663941193, 2392553959, 2042897861, 1666430109,
     10043928, 2325024465, 2942110617, 4254630878, 517537771, 4027055912,
     1113470580, 93729216, 2909551665, 2248896983, 2277492040, 1046804781,
     2366289761, 887221813, 181358856, 3266607578, 1821587210, 4153629601,
     3910963649, 3201394082, 1279150782, 1356423736, 3059252702, 439281382,
     758339734, 4081671435, 4077783581, 852382809, 1902502840, 2869297044,
     3314851595, 3168292426, 124912530, 4282382342]"
  by (simp add: sha1_expand_numeral sha1_next_def rotl_eval)

lemma rfc1_rounds1:
  "sha1_rounds ch 0x5A827999
     (take 20
       ([1682401388, 1229475432, 1649951347, 1515405941, 1647457642, 1515273533,
        842348613, 1095123253, 759511345, 875377719, 1145122105, 893600045,
        1127563586, 809780024, 893530417, 2147483648] @
        [909942828, 619188790, 2287383617, 117128338, 1874115766, 1175131875,
        1502747054, 901747561, 845628814, 4163435780, 1966773927, 1664546322,
        3285607299, 116098809, 1941241154, 2768487864, 365801013, 1394499013,
        1874245584, 1813439660, 1306343101, 903047494, 3903753116, 1251162832,
        3464898740, 1096661662, 663941193, 2392553959, 2042897861, 1666430109,
        10043928, 2325024465, 2942110617, 4254630878, 517537771, 4027055912,
        1113470580, 93729216, 2909551665, 2248896983, 2277492040, 1046804781,
        2366289761, 887221813, 181358856, 3266607578, 1821587210, 4153629601,
        3910963649, 3201394082, 1279150782, 1356423736, 3059252702, 439281382,
        758339734, 4081671435, 4077783581, 852382809, 1902502840, 2869297044,
        3314851595, 3168292426, 124912530, 4282382342]))
     (1732584193, 4023233417, 2562383102, 271733878, 3285377520)
   = (152746364, 2378502326, 3752774234, 1979104605, 671166746)"
  by (simp add: ch_eval rotl_eval sha1_rounds_eval del: sha1_rounds.simps(2))

lemma rfc1_rounds2:
  "sha1_rounds parity 0x6ED9EBA1
     (take 20 (drop 20
       ([1682401388, 1229475432, 1649951347, 1515405941, 1647457642, 1515273533,
        842348613, 1095123253, 759511345, 875377719, 1145122105, 893600045,
        1127563586, 809780024, 893530417, 2147483648] @
        [909942828, 619188790, 2287383617, 117128338, 1874115766, 1175131875,
        1502747054, 901747561, 845628814, 4163435780, 1966773927, 1664546322,
        3285607299, 116098809, 1941241154, 2768487864, 365801013, 1394499013,
        1874245584, 1813439660, 1306343101, 903047494, 3903753116, 1251162832,
        3464898740, 1096661662, 663941193, 2392553959, 2042897861, 1666430109,
        10043928, 2325024465, 2942110617, 4254630878, 517537771, 4027055912,
        1113470580, 93729216, 2909551665, 2248896983, 2277492040, 1046804781,
        2366289761, 887221813, 181358856, 3266607578, 1821587210, 4153629601,
        3910963649, 3201394082, 1279150782, 1356423736, 3059252702, 439281382,
        758339734, 4081671435, 4077783581, 852382809, 1902502840, 2869297044,
        3314851595, 3168292426, 124912530, 4282382342])))
     (152746364, 2378502326, 3752774234, 1979104605, 671166746)
   = (732088382, 3498479745, 438141449, 3543353481, 662299890)"
  by (simp add: parity_def rotl_eval sha1_rounds_eval del: sha1_rounds.simps(2))

lemma rfc1_rounds3:
  "sha1_rounds maj 0x8F1BBCDC
     (take 20 (drop 40
       ([1682401388, 1229475432, 1649951347, 1515405941, 1647457642, 1515273533,
        842348613, 1095123253, 759511345, 875377719, 1145122105, 893600045,
        1127563586, 809780024, 893530417, 2147483648] @
        [909942828, 619188790, 2287383617, 117128338, 1874115766, 1175131875,
        1502747054, 901747561, 845628814, 4163435780, 1966773927, 1664546322,
        3285607299, 116098809, 1941241154, 2768487864, 365801013, 1394499013,
        1874245584, 1813439660, 1306343101, 903047494, 3903753116, 1251162832,
        3464898740, 1096661662, 663941193, 2392553959, 2042897861, 1666430109,
        10043928, 2325024465, 2942110617, 4254630878, 517537771, 4027055912,
        1113470580, 93729216, 2909551665, 2248896983, 2277492040, 1046804781,
        2366289761, 887221813, 181358856, 3266607578, 1821587210, 4153629601,
        3910963649, 3201394082, 1279150782, 1356423736, 3059252702, 439281382,
        758339734, 4081671435, 4077783581, 852382809, 1902502840, 2869297044,
        3314851595, 3168292426, 124912530, 4282382342])))
     (732088382, 3498479745, 438141449, 3543353481, 662299890)
   = (1215486042, 3531927907, 2198413067, 465420221, 2676265148)"
  by (simp add: maj_def rotl_eval sha1_rounds_eval del: sha1_rounds.simps(2))

lemma rfc1_rounds4:
  "sha1_rounds parity 0xCA62C1D6
     (take 20 (drop 60
       ([1682401388, 1229475432, 1649951347, 1515405941, 1647457642, 1515273533,
        842348613, 1095123253, 759511345, 875377719, 1145122105, 893600045,
        1127563586, 809780024, 893530417, 2147483648] @
        [909942828, 619188790, 2287383617, 117128338, 1874115766, 1175131875,
        1502747054, 901747561, 845628814, 4163435780, 1966773927, 1664546322,
        3285607299, 116098809, 1941241154, 2768487864, 365801013, 1394499013,
        1874245584, 1813439660, 1306343101, 903047494, 3903753116, 1251162832,
        3464898740, 1096661662, 663941193, 2392553959, 2042897861, 1666430109,
        10043928, 2325024465, 2942110617, 4254630878, 517537771, 4027055912,
        1113470580, 93729216, 2909551665, 2248896983, 2277492040, 1046804781,
        2366289761, 887221813, 181358856, 3266607578, 1821587210, 4153629601,
        3910963649, 3201394082, 1279150782, 1356423736, 3059252702, 439281382,
        758339734, 4081671435, 4077783581, 852382809, 1902502840, 2869297044,
        3314851595, 3168292426, 124912530, 4282382342])))
     (1215486042, 3531927907, 2198413067, 465420221, 2676265148)
   = (4102706214, 2203686369, 633413371, 1246086146, 2591277810)"
  by (simp add: parity_def rotl_eval sha1_rounds_eval del: sha1_rounds.simps(2))

lemma rfc1_compress:
  "sha1_compress (1732584193, 4023233417, 2562383102, 271733878, 3285377520)
     [100, 71, 104, 108, 73, 72, 78, 104, 98, 88, 66, 115, 90, 83, 66, 117,
     98, 50, 53, 106, 90, 81, 61, 61, 50, 53, 56, 69, 65, 70, 65, 53,
     45, 69, 57, 49, 52, 45, 52, 55, 68, 65, 45, 57, 53, 67, 65, 45,
     67, 53, 65, 66, 48, 68, 67, 56, 53, 66, 49, 49, 128, 0, 0, 0]
   = (1540323111, 1931952490, 3195796473, 1517820024, 1581688034)"
  by (simp only: sha1_compress_staged [OF rfc1_words rfc1_expand rfc1_rounds1 rfc1_rounds2
        rfc1_rounds3 rfc1_rounds4])
     (simp add: sha1_add_eval)

subsection \<open>The second block of the sample key followed by the GUID\<close>

lemma rfc2_words:
  "block_words
     [0, 0, 0, 0, 0, 0, 0, 0, 0, 0, 0, 0, 0, 0, 0, 0,
     0, 0, 0, 0, 0, 0, 0, 0, 0, 0, 0, 0, 0, 0, 0, 0,
     0, 0, 0, 0, 0, 0, 0, 0, 0, 0, 0, 0, 0, 0, 0, 0,
     0, 0, 0, 0, 0, 0, 0, 0, 0, 0, 0, 0, 0, 0, 1, 224]
   = [0, 0, 0, 0, 0, 0,
     0, 0, 0, 0, 0, 0,
     0, 0, 0, 480]"
  by (simp add: be32_def)

lemma rfc2_expand:
  "sha1_expand 64
     [0, 0, 0, 0, 0, 0,
     0, 0, 0, 0, 0, 0,
     0, 0, 0, 480]
   = [0, 0, 960, 0, 0, 1920,
     0, 960, 3840, 0, 0, 7680,
     0, 3264, 15360, 1088, 0, 30720,
     3840, 13056, 61440, 3840, 0, 126720,
     0, 52224, 245760, 17280, 0, 495360,
     65280, 206464, 983040, 61440, 13056, 2031360,
     0, 833536, 3932160, 264960, 61440, 7929600,
     1044480, 3376896, 15728640, 1032960, 61440, 32488192,
     0, 13369344, 62976000, 4423680, 0, 126812160,
     16711680, 52862464, 251658240, 15790080, 3357696, 520062976,
     0, 213420032, 1006694400, 67783168]"
  by (simp add: sha1_expand_numeral sha1_next_def rotl_eval)

lemma rfc2_rounds1:
  "sha1_rounds ch 0x5A827999
     (take 20
       ([0, 0, 0, 0, 0, 0,
        0, 0, 0, 0, 0, 0,
        0, 0, 0, 480] @
        [0, 0, 960, 0, 0, 1920,
        0, 960, 3840, 0, 0, 7680,
        0, 3264, 15360, 1088, 0, 30720,
        3840, 13056, 61440, 3840, 0, 126720,
        0, 52224, 245760, 17280, 0, 495360,
        65280, 206464, 983040, 61440, 13056, 2031360,
        0, 833536, 3932160, 264960, 61440, 7929600,
        1044480, 3376896, 15728640, 1032960, 61440, 32488192,
        0, 13369344, 62976000, 4423680, 0, 126812160,
        16711680, 52862464, 251658240, 15790080, 3357696, 520062976,
        0, 213420032, 1006694400, 67783168]))
     (1540323111, 1931952490, 3195796473, 1517820024, 1581688034)
   = (704678737, 790182409, 2626053057, 2394280195, 639335578)"
  by (simp add: ch_eval rotl_eval sha1_rounds_eval del: sha1_rounds.simps(2))

lemma rfc2_rounds2:
  "sha1_rounds parity 0x6ED9EBA1
     (take 20 (drop 20
       ([0, 0, 0, 0, 0, 0,
        0, 0, 0, 0, 0, 0,
        0, 0, 0, 480] @
        [0, 0, 960, 0, 0, 1920,
        0, 960, 3840, 0, 0, 7680,
        0, 3264, 15360, 1088, 0, 30720,
        3840, 13056, 61440, 3840, 0, 126720,
        0, 52224, 245760, 17280, 0, 495360,
        65280, 206464, 983040, 61440, 13056, 2031360,
        0, 833536, 3932160, 264960, 61440, 7929600,
        1044480, 3376896, 15728640, 1032960, 61440, 32488192,
        0, 13369344, 62976000, 4423680, 0, 126812160,
        16711680, 52862464, 251658240, 15790080, 3357696, 520062976,
        0, 213420032, 1006694400, 67783168])))
     (704678737, 790182409, 2626053057, 2394280195, 639335578)
   = (1869188890, 3338603731, 3730487228, 1601125563, 497322629)"
  by (simp add: parity_def rotl_eval sha1_rounds_eval del: sha1_rounds.simps(2))

lemma rfc2_rounds3:
  "sha1_rounds maj 0x8F1BBCDC
     (take 20 (drop 40
       ([0, 0, 0, 0, 0, 0,
        0, 0, 0, 0, 0, 0,
        0, 0, 0, 480] @
        [0, 0, 960, 0, 0, 1920,
        0, 960, 3840, 0, 0, 7680,
        0, 3264, 15360, 1088, 0, 30720,
        3840, 13056, 61440, 3840, 0, 126720,
        0, 52224, 245760, 17280, 0, 495360,
        65280, 206464, 983040, 61440, 13056, 2031360,
        0, 833536, 3932160, 264960, 61440, 7929600,
        1044480, 3376896, 15728640, 1032960, 61440, 32488192,
        0, 13369344, 62976000, 4423680, 0, 126812160,
        16711680, 52862464, 251658240, 15790080, 3357696, 520062976,
        0, 213420032, 1006694400, 67783168])))
     (1869188890, 3338603731, 3730487228, 1601125563, 497322629)
   = (1443995417, 140423934, 1212818885, 3242250216, 1752014928)"
  by (simp add: maj_def rotl_eval sha1_rounds_eval del: sha1_rounds.simps(2))

lemma rfc2_rounds4:
  "sha1_rounds parity 0xCA62C1D6
     (take 20 (drop 60
       ([0, 0, 0, 0, 0, 0,
        0, 0, 0, 0, 0, 0,
        0, 0, 0, 480] @
        [0, 0, 960, 0, 0, 1920,
        0, 960, 3840, 0, 0, 7680,
        0, 3264, 15360, 1088, 0, 30720,
        3840, 13056, 61440, 3840, 0, 126720,
        0, 52224, 245760, 17280, 0, 495360,
        65280, 206464, 983040, 61440, 13056, 2031360,
        0, 833536, 3932160, 264960, 61440, 7929600,
        1044480, 3376896, 15728640, 1032960, 61440, 32488192,
        0, 13369344, 62976000, 4423680, 0, 126812160,
        16711680, 52862464, 251658240, 15790080, 3357696, 520062976,
        0, 213420032, 1006694400, 67783168])))
     (1443995417, 140423934, 1212818885, 3242250216, 1752014928)
   = (1470814213, 1295715756, 3531229709, 1958756557, 1417158664)"
  by (simp add: parity_def rotl_eval sha1_rounds_eval del: sha1_rounds.simps(2))

lemma rfc2_compress:
  "sha1_compress (1540323111, 1931952490, 3195796473, 1517820024, 1581688034)
     [0, 0, 0, 0, 0, 0, 0, 0, 0, 0, 0, 0, 0, 0, 0, 0,
     0, 0, 0, 0, 0, 0, 0, 0, 0, 0, 0, 0, 0, 0, 0, 0,
     0, 0, 0, 0, 0, 0, 0, 0, 0, 0, 0, 0, 0, 0, 0, 0,
     0, 0, 0, 0, 0, 0, 0, 0, 0, 0, 0, 0, 0, 0, 1, 224]
   = (3011137324, 3227668246, 2432058886, 3476576581, 2998846698)"
  by (simp only: sha1_compress_staged [OF rfc2_words rfc2_expand rfc2_rounds1 rfc2_rounds2
        rfc2_rounds3 rfc2_rounds4])
     (simp add: sha1_add_eval)

subsection \<open>The block of the text undefined followed by the GUID\<close>

lemma undef_words:
  "block_words
     [117, 110, 100, 101, 102, 105, 110, 101, 100, 50, 53, 56, 69, 65, 70, 65,
     53, 45, 69, 57, 49, 52, 45, 52, 55, 68, 65, 45, 57, 53, 67, 65,
     45, 67, 53, 65, 66, 48, 68, 67, 56, 53, 66, 49, 49, 128, 0, 0,
     0, 0, 0, 0, 0, 0, 0, 0, 0, 0, 0, 0, 0, 0, 1, 104]
   = [1970168933, 1718185573, 1681012024, 1161905729, 892159289, 825503028,
     927220013, 959791937, 759379265, 1110459459, 943014449, 830472192,
     0, 0, 0, 360]"
  by (simp add: be32_def)

lemma undef_expand:
  "sha1_expand 64
     [1970168933, 1718185573, 1681012024, 1161905729, 892159289, 825503028,
     927220013, 959791937, 759379265, 1110459459, 943014449, 830472192,
     0, 0, 0, 360]
   = [2017380408, 3257981134, 3528746672, 2073511578, 2159262133, 3031044491,
     3273680364, 4151148479, 3016056199, 3846304450, 974698108, 4087625275,
     3420755694, 493178175, 2440378334, 4252131823, 160791648, 2603005585,
     723128621, 1779972756, 648280140, 3950011468, 386951747, 2482645437,
     3597789102, 900083799, 2453155844, 2773568636, 2468926038, 851374385,
     1430444802, 3440138538, 2357262245, 599051937, 2770010270, 1366542851,
     39788017, 3730798781, 2325821913, 3525229154, 757903716, 1942296230,
     3962220892, 3613494357, 1876952071, 2609824757, 134558295, 2794214364,
     1047726933, 302923942, 3687186399, 3430706044, 3928015123, 2551578090,
     3353977644, 3673062423, 3468815630, 3800494834, 96628007, 2628096932,
     3733326690, 1101660617, 3665040148, 1641334815]"
  by (simp add: sha1_expand_numeral sha1_next_def rotl_eval)

lemma undef_rounds1:
  "sha1_rounds ch 0x5A827999
     (take 20
       ([1970168933, 1718185573, 1681012024, 1161905729, 892159289, 825503028,
        927220013, 959791937, 759379265, 1110459459, 943014449, 830472192,
        0, 0, 0, 360] @
        [2017380408, 3257981134, 3528746672, 2073511578, 2159262133, 3031044491,
        3273680364, 4151148479, 3016056199, 3846304450, 974698108, 4087625275,
        3420755694, 493178175, 2440378334, 4252131823, 160791648, 2603005585,
        723128621, 1779972756, 648280140, 3950011468, 386951747, 2482645437,
        3597789102, 900083799, 2453155844, 2773568636, 2468926038, 851374385,
        1430444802, 3440138538, 2357262245, 599051937, 2770010270, 1366542851,
        39788017, 3730798781, 2325821913, 3525229154, 757903716, 1942296230,
        3962220892, 3613494357, 1876952071, 2609824757, 134558295, 2794214364,
        1047726933, 302923942, 3687186399, 3430706044, 3928015123, 2551578090,
        3353977644, 3673062423, 3468815630, 3800494834, 96628007, 2628096932,
        3733326690, 1101660617, 3665040148, 1641334815]))
     (1732584193, 4023233417, 2562383102, 271733878, 3285377520)
   = (3224026424, 4222992587, 3818825957, 243920851, 1419106679)"
  by (simp add: ch_eval rotl_eval sha1_rounds_eval del: sha1_rounds.simps(2))

lemma undef_rounds2:
  "sha1_rounds parity 0x6ED9EBA1
     (take 20 (drop 20
       ([1970168933, 1718185573, 1681012024, 1161905729, 892159289, 825503028,
        927220013, 959791937, 759379265, 1110459459, 943014449, 830472192,
        0, 0, 0, 360] @
        [2017380408, 3257981134, 3528746672, 2073511578, 2159262133, 3031044491,
        3273680364, 4151148479, 3016056199, 3846304450, 974698108, 4087625275,
        3420755694, 493178175, 2440378334, 4252131823, 160791648, 2603005585,
        723128621, 1779972756, 648280140, 3950011468, 386951747, 2482645437,
        3597789102, 900083799, 2453155844, 2773568636, 2468926038, 851374385,
        1430444802, 3440138538, 2357262245, 599051937, 2770010270, 1366542851,
        39788017, 3730798781, 2325821913, 3525229154, 757903716, 1942296230,
        3962220892, 3613494357, 1876952071, 2609824757, 134558295, 2794214364,
        1047726933, 302923942, 3687186399, 3430706044, 3928015123, 2551578090,
        3353977644, 3673062423, 3468815630, 3800494834, 96628007, 2628096932,
        3733326690, 1101660617, 3665040148, 1641334815])))
     (3224026424, 4222992587, 3818825957, 243920851, 1419106679)
   = (633687087, 464685631, 72261970, 753607143, 316412905)"
  by (simp add: parity_def rotl_eval sha1_rounds_eval del: sha1_rounds.simps(2))

lemma undef_rounds3:
  "sha1_rounds maj 0x8F1BBCDC
     (take 20 (drop 40
       ([1970168933, 1718185573, 1681012024, 1161905729, 892159289, 825503028,
        927220013, 959791937, 759379265, 1110459459, 943014449, 830472192,
        0, 0, 0, 360] @
        [2017380408, 3257981134, 3528746672, 2073511578, 2159262133, 3031044491,
        3273680364, 4151148479, 3016056199, 3846304450, 974698108, 4087625275,
        3420755694, 493178175, 2440378334, 4252131823, 160791648, 2603005585,
        723128621, 1779972756, 648280140, 3950011468, 386951747, 2482645437,
        3597789102, 900083799, 2453155844, 2773568636, 2468926038, 851374385,
        1430444802, 3440138538, 2357262245, 599051937, 2770010270, 1366542851,
        39788017, 3730798781, 2325821913, 3525229154, 757903716, 1942296230,
        3962220892, 3613494357, 1876952071, 2609824757, 134558295, 2794214364,
        1047726933, 302923942, 3687186399, 3430706044, 3928015123, 2551578090,
        3353977644, 3673062423, 3468815630, 3800494834, 96628007, 2628096932,
        3733326690, 1101660617, 3665040148, 1641334815])))
     (633687087, 464685631, 72261970, 753607143, 316412905)
   = (117244510, 345566121, 2890104383, 1245136621, 2216879927)"
  by (simp add: maj_def rotl_eval sha1_rounds_eval del: sha1_rounds.simps(2))

lemma undef_rounds4:
  "sha1_rounds parity 0xCA62C1D6
     (take 20 (drop 60
       ([1970168933, 1718185573, 1681012024, 1161905729, 892159289, 825503028,
        927220013, 959791937, 759379265, 1110459459, 943014449, 830472192,
        0, 0, 0, 360] @
        [2017380408, 3257981134, 3528746672, 2073511578, 2159262133, 3031044491,
        3273680364, 4151148479, 3016056199, 3846304450, 974698108, 4087625275,
        3420755694, 493178175, 2440378334, 4252131823, 160791648, 2603005585,
        723128621, 1779972756, 648280140, 3950011468, 386951747, 2482645437,
        3597789102, 900083799, 2453155844, 2773568636, 2468926038, 851374385,
        1430444802, 3440138538, 2357262245, 599051937, 2770010270, 1366542851,
        39788017, 3730798781, 2325821913, 3525229154, 757903716, 1942296230,
        3962220892, 3613494357, 1876952071, 2609824757, 134558295, 2794214364,
        1047726933, 302923942, 3687186399, 3430706044, 3928015123, 2551578090,
        3353977644, 3673062423, 3468815630, 3800494834, 96628007, 2628096932,
        3733326690, 1101660617, 3665040148, 1641334815])))
     (117244510, 345566121, 2890104383, 1245136621, 2216879927)
   = (423131462, 2359985768, 4268719074, 315663110, 39645398)"
  by (simp add: parity_def rotl_eval sha1_rounds_eval del: sha1_rounds.simps(2))

lemma undef_compress:
  "sha1_compress (1732584193, 4023233417, 2562383102, 271733878, 3285377520)
     [117, 110, 100, 101, 102, 105, 110, 101, 100, 50, 53, 56, 69, 65, 70, 65,
     53, 45, 69, 57, 49, 52, 45, 52, 55, 68, 65, 45, 57, 53, 67, 65,
     45, 67, 53, 65, 66, 48, 68, 67, 56, 53, 66, 49, 49, 128, 0, 0,
     0, 0, 0, 0, 0, 0, 0, 0, 0, 0, 0, 0, 0, 0, 1, 104]
   = (2155715655, 2088251889, 2536134880, 587396988, 3325022918)"
  by (simp only: sha1_compress_staged [OF undef_words undef_expand undef_rounds1 undef_rounds2
        undef_rounds3 undef_rounds4])
     (simp add: sha1_add_eval)

subsection \<open>The two digests\<close>

lemma rfc_pad:
  "sha1_pad
     [100, 71, 104, 108, 73, 72, 78, 104, 98, 88, 66, 115, 90, 83, 66, 117,
     98, 50, 53, 106, 90, 81, 61, 61, 50, 53, 56, 69, 65, 70, 65, 53,
     45, 69, 57, 49, 52, 45, 52, 55, 68, 65, 45, 57, 53, 67, 65, 45,
     67, 53, 65, 66, 48, 68, 67, 56, 53, 66, 49, 49]
   = [100, 71, 104, 108, 73, 72, 78, 104, 98, 88, 66, 115, 90, 83, 66, 117,
     98, 50, 53, 106, 90, 81, 61, 61, 50, 53, 56, 69, 65, 70, 65, 53,
     45, 69, 57, 49, 52, 45, 52, 55, 68, 65, 45, 57, 53, 67, 65, 45,
     67, 53, 65, 66, 48, 68, 67, 56, 53, 66, 49, 49, 128, 0, 0, 0,
     0, 0, 0, 0, 0, 0, 0, 0, 0, 0, 0, 0, 0, 0, 0, 0,
     0, 0, 0, 0, 0, 0, 0, 0, 0, 0, 0, 0, 0, 0, 0, 0,
     0, 0, 0, 0, 0, 0, 0, 0, 0, 0, 0, 0, 0, 0, 0, 0,
     0, 0, 0, 0, 0, 0, 0, 0, 0, 0, 0, 0, 0, 0, 1, 224]"
  by (simp add: sha1_pad_def replicate_numeral u64_bytes_def)

lemma rfc_digest:
  "sha1
     [100, 71, 104, 108, 73, 72, 78, 104, 98, 88, 66, 115, 90, 83, 66, 117,
     98, 50, 53, 106, 90, 81, 61, 61, 50, 53, 56, 69, 65, 70, 65, 53,
     45, 69, 57, 49, 52, 45, 52, 55, 68, 65, 45, 57, 53, 67, 65, 45,
     67, 53, 65, 66, 48, 68, 67, 56, 53, 66, 49, 49]
   = [179, 122, 79, 44, 192, 98, 79, 22, 144, 246, 70, 6, 207, 56, 89, 69,
     178, 190, 196, 234]"
  by (simp only: sha1_def Let_def rfc_pad)
     (simp add: sha1_blocks_numeral sha1_init_def rfc1_compress rfc2_compress sha1_bytes_def u32_bytes_def)

lemma undefined_pad:
  "sha1_pad
     [117, 110, 100, 101, 102, 105, 110, 101, 100, 50, 53, 56, 69, 65, 70, 65,
     53, 45, 69, 57, 49, 52, 45, 52, 55, 68, 65, 45, 57, 53, 67, 65,
     45, 67, 53, 65, 66, 48, 68, 67, 56, 53, 66, 49, 49]
   = [117, 110, 100, 101, 102, 105, 110, 101, 100, 50, 53, 56, 69, 65, 70, 65,
     53, 45, 69, 57, 49, 52, 45, 52, 55, 68, 65, 45, 57, 53, 67, 65,
     45, 67, 53, 65, 66, 48, 68, 67, 56, 53, 66, 49, 49, 128, 0, 0,
     0, 0, 0, 0, 0, 0, 0, 0, 0, 0, 0, 0, 0, 0, 1, 104]"
  by (simp add: sha1_pad_def replicate_numeral u64_bytes_def)

lemma undefined_digest:
  "sha1
     [117, 110, 100, 101, 102, 105, 110, 101, 100, 50, 53, 56, 69, 65, 70, 65,
     53, 45, 69, 57, 49, 52, 45, 52, 55, 68, 65, 45, 57, 53, 67, 65,
     45, 67, 53, 65, 66, 48, 68, 67, 56, 53, 66, 49, 49]
   = [128, 125, 156, 71, 124, 120, 49, 241, 151, 42, 88, 224, 35, 2, 247, 124,
     198, 47, 210, 198]"
  by (simp only: sha1_def Let_def undefined_pad)
     (simp add: sha1_blocks_numeral sha1_init_def undef_compress sha1_bytes_def u32_bytes_def)

section \<open>Properties of the handshake functions\<close>

lemma length_js_str [simp]: "length (js_str s) = length s"
  by (simp add: js_str_def)

lemma length_u32_bytes [simp]: "length (u32_bytes w) = 4"
  by (simp add: u32_bytes_def)

lemma length_sha1: "length (sha1 m) = 20"
  by (simp add: sha1_def Let_def sha1_bytes_def split: prod.splits)

lemma b64_char_alphabet: "n < 64 \<Longrightarrow> b64_char n \<in> set b64_alphabet"
  unfolding b64_char_def by (rule nth_mem) (simp add: b64_alphabet_def)

lemma b64_indices:
  fixes a b c :: byte
  shows "unat a div 4 < 64" and "unat a mod 4 * 16 < 64"
    and "unat a mod 4 * 16 + unat b div 16 < 64" and "unat b mod 16 * 4 < 64"
    and "unat b mod 16 * 4 + unat c div 64 < 64" and "unat c mod 64 < 64"
proof -
  have a: "unat a < 256" and b: "unat b < 256" and c: "unat c < 256"
    using unsigned_less [of a] unsigned_less [of b] unsigned_less [of c] by simp_all
  have "unat a mod 4 < 4" "unat b mod 16 < 16" by simp_all
  moreover have "unat b div 16 < 16" "unat c div 64 < 4" using b c by simp_all
  ultimately show "unat a div 4 < 64" and "unat a mod 4 * 16 < 64"
    and "unat a mod 4 * 16 + unat b div 16 < 64" and "unat b mod 16 * 4 < 64"
    and "unat b mod 16 * 4 + unat c div 64 < 64" and "unat c mod 64 < 64"
    using a by simp_all
qed

lemma length_base64: "length (base64 bs) = 4 * ((length bs + 2) div 3)"
proof (induction bs rule: base64.induct)
  case (4 a b c bs)
  have "(length (a # b # c # bs) + 2) div 3 = Suc ((length bs + 2) div 3)" by simp
  with 4 show ?case by simp
qed simp_all

lemma b64_valid_quad:
  assumes "w \<in> set b64_alphabet" "x \<in> set b64_alphabet" "y \<in> set b64_alphabet"
    "z \<in> set b64_alphabet" "b64_valid cs"
  shows "b64_valid (w # x # y # z # cs)"
  using assms by (cases cs) simp_all

lemma b64_valid_base64: "b64_valid (base64 bs)"
proof (induction bs rule: base64.induct)
  case 1
  then show ?case by simp
next
  case (2 a)
  then show ?case by (simp add: b64_char_alphabet b64_indices)
next
  case (3 a b)
  then show ?case by (simp add: b64_char_alphabet b64_indices)
next
  case (4 a b c bs)
  then show ?case
    by (simp add: b64_valid_quad b64_char_alphabet b64_indices)
qed

lemma guid_not_low: "\<not> is_low (hd (js_str magic_guid))"
  by (simp add: js_str_def magic_guid_def is_low_def)

lemma utf8_encode_guid:
  "utf8_encode (js_str magic_guid) =
     [50, 53, 56, 69, 65, 70, 65, 53, 45, 69, 57, 49, 52, 45, 52, 55, 68, 65, 45, 57, 53, 67, 65,
      45, 67, 53, 65, 66, 48, 68, 67, 56, 53, 66, 49, 49]"
  by (simp add: js_str_def magic_guid_def is_high_def is_low_def utf8_of_cp_def)

lemma utf8_encode_rfc_key:
  "utf8_encode (js_str ''dGhlIHNhbXBsZSBub25jZQ=='') =
     [100, 71, 104, 108, 73, 72, 78, 104, 98, 88, 66, 115, 90, 83, 66, 117, 98, 50, 53, 106, 90,
      81, 61, 61]"
  by (simp add: js_str_def is_high_def is_low_def utf8_of_cp_def)

lemma utf8_encode_undefined:
  "utf8_encode (js_str ''undefined'') = [117, 110, 100, 101, 102, 105, 110, 101, 100]"
  by (simp add: js_str_def is_high_def is_low_def utf8_of_cp_def)

lemma generateAcceptKey_bytes:
  "generateAcceptKey x =
     js_str (base64 (sha1 (utf8_encode (case x of None \<Rightarrow> js_str ''undefined'' | Some k \<Rightarrow> k)
                            @ utf8_encode (js_str magic_guid))))"
  unfolding generateAcceptKey_def js_plus_def
  by (subst utf8_encode_append) (simp_all add: guid_not_low)

lemma generateAcceptKey_undefined:
  "generateAcceptKey None = js_str ''gH2cR3x4MfGXKljgIwL3fMYv0sY=''"
proof -
  have "base64 [128, 125, 156, 71, 124, 120, 49, 241, 151, 42, 88, 224, 35, 2, 247, 124,
                198, 47, 210, 198] = ''gH2cR3x4MfGXKljgIwL3fMYv0sY=''"
    by (simp add: b64_char_def b64_alphabet_def)
  then show ?thesis
    by (simp add: generateAcceptKey_bytes utf8_encode_undefined utf8_encode_guid undefined_digest)
qed

section \<open>The claims\<close>

subsection \<open>Round trip through the server's encoder\<close>

lemma well_formed_test: "well_formed (js_str ''test'')"
  by (simp add: js_str_def is_high_def is_low_def)

lemma utf8_encode_test: "utf8_encode (js_str ''test'') = [0x74, 0x65, 0x73, 0x74]"
  by (simp add: js_str_def is_high_def is_low_def utf8_of_cp_def)

text \<open>
  Claim C2. For every well-formed text message \<open>m\<close>, decoding the frame that
  \<open>sendMessage\<close> writes for \<open>m\<close> returns exactly \<open>m\<close> (and leaves the frame as it was).
\<close>

theorem sendMessage_roundtrip:
  assumes "well_formed m"
  shows "parseFrame (last (sendMessage random socket m)) = (last (sendMessage random socket m), m)"
  using assms
  by (simp add: sendMessage_def isClient_def build_frame_server parseFrame_server_frame
        toString_utf8_encode)

theorem sendMessage_roundtrip_witness:
  "well_formed (js_str ''test'') \<and>
   parseFrame (last (sendMessage (\<lambda>i. 0) [] (js_str ''test''))) =
     ([0x81, 4, 0x74, 0x65, 0x73, 0x74], js_str ''test'')"
proof -
  have f: "last (sendMessage (\<lambda>i. 0) [] (js_str ''test'')) = [0x81, 4, 0x74, 0x65, 0x73, 0x74]"
    by (simp add: sendMessage_def isClient_def build_frame_server frame_header_def
          utf8_encode_test)
  show ?thesis
    using sendMessage_roundtrip [OF well_formed_test, of "\<lambda>i. 0" "[]"] well_formed_test
    unfolding f by simp
qed

text \<open>
  The condition on the message is needed: an unpaired surrogate is not text that UTF-8
  can carry, and it comes back as U+FFFD.
\<close>

lemma lone_surrogate_roundtrip:
  "snd (parseFrame (last (sendMessage random socket [0xD800]))) = [0xFFFD]"
proof -
  have "utf8_encode [0xD800] = [0xEF, 0xBF, 0xBD]"
    by (simp add: is_high_def)
  moreover have "toString [0xEF, 0xBF, 0xBD] = [0xFFFD]"
    by (simp add: toString_def utf8_lead_def utf16_of_cp_def)
  ultimately show ?thesis
    by (simp add: sendMessage_def isClient_def build_frame_server parseFrame_server_frame)
qed

subsection \<open>The frames of \<open>sendMessage\<close>\<close>

text \<open>
  Claim C9. The role is the constant \<open>isClient = False\<close>: for every message, the frame
  that \<open>sendMessage\<close> appends to the socket is the header with MASK bit 0 followed
  directly by the UTF-8 bytes of the message. Its MASK flag is not set, its length is
  the header length (2, 4 or 10) plus the payload length, so there is no room for a key,
  and it does not depend on the random source: the client branch is never taken.
\<close>

theorem sendMessage_frame_unmasked:
  "sendMessage random socket m =
     socket @ [frame_header 0 (length (utf8_encode m)) @ utf8_encode m]
   \<and> \<not> frame_masked (last (sendMessage random socket m))
   \<and> length (last (sendMessage random socket m)) =
       (if length (utf8_encode m) < 126 then 2 else if length (utf8_encode m) < 65536 then 4 else 10)
       + length (utf8_encode m)
   \<and> drop (frame_data_start (last (sendMessage random socket m))) (last (sendMessage random socket m))
       = utf8_encode m
   \<and> sendMessage random' socket m = sendMessage random socket m"
  by (simp add: sendMessage_def isClient_def build_frame_server frame_header_layout
        length_frame_header)

subsection \<open>The boundaries of the length classes\<close>

lemma be_bytes_numeral:
  "be_bytes (numeral k) v = of_nat (v div 256 ^ pred_numeral k mod 256) # be_bytes (pred_numeral k) v"
  by (simp only: numeral_eq_Suc [of k] be_bytes.simps)

lemma be_bytes_2_126: "be_bytes 2 126 = [0, 126]"
  by (simp add: be_bytes_numeral)

lemma be_bytes_8_65536: "be_bytes 8 65536 = [0, 0, 0, 0, 0, 1, 0, 0]"
  by (simp add: be_bytes_numeral)

lemma length_utf8_encode_a: "length (utf8_encode (replicate n 0x61)) = n"
proof -
  have "utf8_encode (replicate n 0x61) = map (\<lambda>u. of_nat (unat u)) (replicate n (0x61 :: 16 word))"
    by (rule utf8_encode_ascii) simp
  then show ?thesis by simp
qed

text \<open>
  Claim C6. A payload of exactly 125 bytes is framed with the single length byte 125
  and no extended length; a payload of exactly 126 bytes with indicator 126 and the two
  bytes 0, 126; a payload of exactly 65536 bytes with indicator 127 and the eight bytes
  0, 0, 0, 0, 0, 1, 0, 0. In each case the payload follows the header directly.
\<close>

theorem sendMessage_length_boundaries:
  "(length (utf8_encode m) = 125 \<longrightarrow>
      last (sendMessage random socket m) = [0x81, 125] @ utf8_encode m)
   \<and> (length (utf8_encode m) = 126 \<longrightarrow>
      last (sendMessage random socket m) = [0x81, 126, 0, 126] @ utf8_encode m)
   \<and> (length (utf8_encode m) = 65536 \<longrightarrow>
      last (sendMessage random socket m) = [0x81, 127, 0, 0, 0, 0, 0, 1, 0, 0] @ utf8_encode m)"
  by (simp add: sendMessage_def isClient_def build_frame_server frame_header_def
        be_bytes_2_126 be_bytes_8_65536)

theorem sendMessage_length_boundaries_witness:
  "length (utf8_encode (replicate 125 0x61)) = 125
   \<and> take 2 (last (sendMessage (\<lambda>i. 0) [] (replicate 125 0x61))) = [0x81, 125]
   \<and> length (last (sendMessage (\<lambda>i. 0) [] (replicate 125 0x61))) = 127
   \<and> length (utf8_encode (replicate 126 0x61)) = 126
   \<and> take 4 (last (sendMessage (\<lambda>i. 0) [] (replicate 126 0x61))) = [0x81, 126, 0, 126]
   \<and> length (last (sendMessage (\<lambda>i. 0) [] (replicate 126 0x61))) = 130
   \<and> length (utf8_encode (replicate 65536 0x61)) = 65536
   \<and> take 10 (last (sendMessage (\<lambda>i. 0) [] (replicate 65536 0x61)))
       = [0x81, 127, 0, 0, 0, 0, 0, 1, 0, 0]
   \<and> length (last (sendMessage (\<lambda>i. 0) [] (replicate 65536 0x61))) = 65546"
  using sendMessage_length_boundaries [of "replicate 125 0x61" "\<lambda>i. 0" "[]"]
    sendMessage_length_boundaries [of "replicate 126 0x61" "\<lambda>i. 0" "[]"]
    sendMessage_length_boundaries [of "replicate 65536 0x61" "\<lambda>i. 0" "[]"]
  by (simp add: length_utf8_encode_a)

subsection \<open>Masked frames\<close>




subsection \<open>The caller's buffer after decoding\<close>

text \<open>
  Claim C10. When the MASK flag of the buffer is set, \<open>parseFrame\<close> changes the
  caller's buffer: afterwards the bytes from the start of the payload on are the
  unmasked bytes (the payload view is a window onto the caller's memory), the bytes
  before the payload are unchanged, the length is unchanged, and the returned text is
  the decoding of that region of the buffer.
\<close>

theorem parseFrame_mutates_buffer:
  assumes "frame_masked b"
  shows "length (fst (parseFrame b)) = length b
         \<and> take (frame_payload_start b) (fst (parseFrame b)) = take (frame_payload_start b) b
         \<and> drop (frame_payload_start b) (fst (parseFrame b))
             = xor_mask (frame_key b) (drop (frame_payload_start b) b)
         \<and> snd (parseFrame b) = toString (drop (frame_payload_start b) (fst (parseFrame b)))"
proof (cases "frame_payload_start b \<le> length b")
  case True
  then show ?thesis
    using assms by (simp add: parseFrame_masked frame_payload_start_def frame_key_def)
next
  case False
  then show ?thesis
    using assms by (simp add: parseFrame_masked frame_payload_start_def frame_key_def)
qed

theorem parseFrame_mutates_buffer_witness:
  "frame_masked [0x81, 0x84, 1, 2, 3, 4, 0x75, 0x67, 0x70, 0x70]
   \<and> fst (parseFrame [0x81, 0x84, 1, 2, 3, 4, 0x75, 0x67, 0x70, 0x70])
       = [0x81, 0x84, 1, 2, 3, 4, 0x74, 0x65, 0x73, 0x74]"
proof -
  let ?b = "[0x81, 0x84, 1, 2, 3, 4, 0x75, 0x67, 0x70, 0x70] :: byte list"
  have m: "frame_masked ?b" by (simp add: frame_masked_def)
  have ps: "frame_payload_start ?b = 6"
    by (simp add: frame_payload_start_def frame_data_start_def frame_indicator_def m)
  have k: "frame_key ?b = [1, 2, 3, 4]"
    by (simp add: frame_key_def frame_data_start_def frame_indicator_def)
  have x: "xor_mask [1, 2, 3, 4] [0x75, 0x67, 0x70, 0x70] = [0x74, 0x65, 0x73, 0x74 :: byte]"
    by (simp add: xor_mask_def)
  have "fst (parseFrame ?b) = take 6 (fst (parseFrame ?b)) @ drop 6 (fst (parseFrame ?b))"
    by simp
  also have "\<dots> = take 6 ?b @ xor_mask [1, 2, 3, 4] (drop 6 ?b)"
    using parseFrame_mutates_buffer [OF m] unfolding ps k by simp
  finally show ?thesis using m by (simp add: x)
qed

subsection \<open>The accept token\<close>

text \<open>
  Claim C1. For every key string \<open>k\<close>, the token is the base64 text of the SHA-1
  digest of the UTF-8 bytes of \<open>k\<close> followed by the bytes of the GUID
  258EAFA5-E914-47DA-95CA-C5AB0DC85B11. The token is a function of the key alone; the
  digest has 20 bytes, and the token is valid base64 of exactly 28 characters.
\<close>

theorem generateAcceptKey_token:
  "generateAcceptKey (Some k) =
     js_str (base64 (sha1 (utf8_encode k @
                           utf8_encode (js_str ''258EAFA5-E914-47DA-95CA-C5AB0DC85B11''))))
   \<and> length (sha1 (utf8_encode k @
                    utf8_encode (js_str ''258EAFA5-E914-47DA-95CA-C5AB0DC85B11''))) = 20
   \<and> b64_valid (base64 (sha1 (utf8_encode k @
                               utf8_encode (js_str ''258EAFA5-E914-47DA-95CA-C5AB0DC85B11''))))
   \<and> length (generateAcceptKey (Some k)) = 28"
  by (simp add: generateAcceptKey_bytes magic_guid_def [symmetric] length_sha1 b64_valid_base64
        length_base64)

text \<open>
  Claim C7. The key \<^verbatim>\<open>dGhlIHNhbXBsZSBub25jZQ==\<close> of the example in RFC 6455 yields the
  token \<^verbatim>\<open>s3pPLMBiTxaQ9kYGzzhZRbK+xOo=\<close>.
\<close>

theorem generateAcceptKey_rfc_sample:
  "generateAcceptKey (Some (js_str ''dGhlIHNhbXBsZSBub25jZQ==''))
     = js_str ''s3pPLMBiTxaQ9kYGzzhZRbK+xOo=''"
proof -
  have "base64 [179, 122, 79, 44, 192, 98, 79, 22, 144, 246, 70, 6, 207, 56, 89, 69,
                178, 190, 196, 234] = ''s3pPLMBiTxaQ9kYGzzhZRbK+xOo=''"
    by (simp add: b64_char_def b64_alphabet_def)
  then show ?thesis
    by (simp add: generateAcceptKey_bytes utf8_encode_rfc_key utf8_encode_guid rfc_digest)
qed

subsection \<open>A request without a key\<close>

text \<open>
  Claim C8 as stated fails: when the key is \<^verbatim>\<open>undefined\<close>, the derivation does not end
  in \<open>MalformedHeaderError\<close>; it returns a token.
\<close>

theorem missing_key_counterexample:
  "generateAcceptKey_outcome None \<noteq> Inl MalformedHeaderError
   \<and> generateAcceptKey_outcome None = Inr (js_str ''gH2cR3x4MfGXKljgIwL3fMYv0sY='')"
  by (simp add: generateAcceptKey_outcome_def generateAcceptKey_undefined)

text \<open>
  Claim C8, amended. When the request has no \<^verbatim>\<open>sec-websocket-key\<close> header, the
  derivation does not fail: \<open>generateAcceptKey\<close> receives \<^verbatim>\<open>undefined\<close> and returns
  the token of the text \<^verbatim>\<open>undefined\<close>, which is \<^verbatim>\<open>gH2cR3x4MfGXKljgIwL3fMYv0sY=\<close>, and
  the upgrade handler of a request for \<^verbatim>\<open>/ws\<close> writes the 101 response with that token.
\<close>

theorem missing_key_token:
  assumes "headers req ''sec-websocket-key'' = None"
  shows "generateAcceptKey_outcome (headers req ''sec-websocket-key'')
           = Inr (generateAcceptKey (Some (js_str ''undefined'')))
         \<and> generateAcceptKey (headers req ''sec-websocket-key'')
             = js_str ''gH2cR3x4MfGXKljgIwL3fMYv0sY=''
         \<and> (url req = js_str ''/ws'' \<longrightarrow>
              upgrade_outcome req =
                Inr [js_join crlf
                       [js_str ''HTTP/1.1 101 Switching Protocols'',
                        js_str ''Upgrade: websocket'',
                        js_str ''Connection: Upgrade'',
                        js_str ''Sec-WebSocket-Accept: gH2cR3x4MfGXKljgIwL3fMYv0sY='',
                        [], []]])"
proof -
  have "generateAcceptKey (Some (js_str ''undefined'')) = generateAcceptKey None"
    by (simp add: generateAcceptKey_def js_plus_def)
  then show ?thesis
    using assms
    by (simp add: generateAcceptKey_outcome_def upgrade_outcome_def upgrade_def Let_def
          generateAcceptKey_undefined js_str_def)
qed

theorem missing_key_token_witness:
  "headers \<lparr>url = js_str ''/ws'', headers = Map.empty\<rparr> ''sec-websocket-key'' = None
   \<and> url \<lparr>url = js_str ''/ws'', headers = Map.empty\<rparr> = js_str ''/ws''
   \<and> upgrade_outcome \<lparr>url = js_str ''/ws'', headers = Map.empty\<rparr> =
       Inr [js_join crlf
              [js_str ''HTTP/1.1 101 Switching Protocols'',
               js_str ''Upgrade: websocket'',
               js_str ''Connection: Upgrade'',
               js_str ''Sec-WebSocket-Accept: gH2cR3x4MfGXKljgIwL3fMYv0sY='',
               [], []]]"
  using missing_key_token [of "\<lparr>url = js_str ''/ws'', headers = Map.empty\<rparr>"]
  by simp

subsection \<open>Buffers that are shorter than their frame\<close>

lemma parseFrame_text: "snd (parseFrame b) = toString (present_payload b)"
  by (cases "frame_masked b")
     (simp_all add: parseFrame_masked parseFrame_unmasked present_payload_def
        frame_payload_start_def frame_key_def)

lemma toString_a: "toString [0x61] = js_str ''a''"
  by (simp add: toString_def utf8_lead_def js_str_def)

lemma toString_ab: "toString [0x61, 0x62] = js_str ''ab''"
  by (simp add: toString_def utf8_lead_def js_str_def)

lemma layout_81_05_61:
  "\<not> frame_masked [0x81, 0x05, 0x61]" "frame_indicator [0x81, 0x05, 0x61] = 5"
  "frame_data_start [0x81, 0x05, 0x61] = 2" "frame_payload_start [0x81, 0x05, 0x61] = 2"
  by (simp_all add: frame_masked_def frame_indicator_def frame_data_start_def
        frame_payload_start_def)

text \<open>
  Claim C3 as stated fails: the buffer 81 05 61 declares a payload of 5 bytes, a frame
  of 7, and holds 3 bytes; \<open>parseFrame\<close> does not end in \<open>TruncatedFrameError\<close> but
  returns the text of the one payload byte that is there.
\<close>

theorem truncated_frame_counterexample:
  "declared_frame_length [0x81, 0x05, 0x61] = Some 7
   \<and> length [0x81, 0x05, 0x61 :: byte] < 7
   \<and> truncated [0x81, 0x05, 0x61]
   \<and> parseFrame_outcome [0x81, 0x05, 0x61] \<noteq> Inl TruncatedFrameError
   \<and> parseFrame_outcome [0x81, 0x05, 0x61] = Inr (js_str ''a'')"
  by (simp add: truncated_def declared_frame_length_def declared_payload_length_def
        layout_81_05_61 parseFrame_outcome_def parseFrame_text present_payload_def toString_a)

text \<open>
  Claim C3, amended. For every buffer that is shorter than the frame its header
  declares, \<open>parseFrame\<close> raises nothing: it returns the decoding of the bytes that the
  buffer holds from the start of the payload on (unmasked when the MASK flag is set;
  none when the buffer ends before the payload starts), which are at most as many as the
  declared payload length.
\<close>

theorem parseFrame_truncated:
  assumes "truncated b"
  shows "parseFrame_outcome b = Inr (toString (present_payload b))
         \<and> length (present_payload b) = length b - frame_payload_start b
         \<and> (case declared_payload_length b of None \<Rightarrow> present_payload b = []
             | Some n \<Rightarrow> length (present_payload b) \<le> n)"
proof -
  have len: "length (present_payload b) = length b - frame_payload_start b"
    by (simp add: present_payload_def Let_def)
  have "case declared_payload_length b of None \<Rightarrow> present_payload b = []
        | Some n \<Rightarrow> length (present_payload b) \<le> n"
  proof (cases "declared_payload_length b")
    case None
    then have "length b < frame_data_start b"
      by (simp add: declared_payload_length_def split: if_splits)
    then have "length b - frame_payload_start b = 0"
      by (simp add: frame_payload_start_def)
    with len None show ?thesis by simp
  next
    case (Some n)
    with assms have "length b < frame_payload_start b + n"
      by (simp add: truncated_def declared_frame_length_def)
    with len Some show ?thesis by simp
  qed
  with len show ?thesis by (simp add: parseFrame_outcome_def parseFrame_text)
qed

theorem parseFrame_truncated_witness:
  "truncated [0x81, 0x05, 0x61]
   \<and> parseFrame_outcome [0x81, 0x05, 0x61] = Inr (toString [0x61])
   \<and> length (present_payload [0x81, 0x05, 0x61]) = 1
   \<and> declared_payload_length [0x81, 0x05, 0x61] = Some 5"
proof -
  have t: "truncated [0x81, 0x05, 0x61]"
    by (simp add: truncated_def declared_frame_length_def declared_payload_length_def
          layout_81_05_61)
  have p: "present_payload [0x81, 0x05, 0x61] = [0x61]"
    by (simp add: present_payload_def layout_81_05_61)
  show ?thesis
    using parseFrame_truncated [OF t] t
    by (simp add: p declared_payload_length_def layout_81_05_61)
qed

subsection \<open>Buffers that hold more than one frame\<close>

lemma layout_81_01_61_62:
  "\<not> frame_masked [0x81, 0x01, 0x61, 0x62]" "frame_indicator [0x81, 0x01, 0x61, 0x62] = 1"
  "frame_data_start [0x81, 0x01, 0x61, 0x62] = 2" "frame_payload_start [0x81, 0x01, 0x61, 0x62] = 2"
  by (simp_all add: frame_masked_def frame_indicator_def frame_data_start_def
        frame_payload_start_def)

lemma layout_81_01_61:
  "\<not> frame_masked [0x81, 0x01, 0x61]" "frame_indicator [0x81, 0x01, 0x61] = 1"
  "frame_data_start [0x81, 0x01, 0x61] = 2" "frame_payload_start [0x81, 0x01, 0x61] = 2"
  by (simp_all add: frame_masked_def frame_indicator_def frame_data_start_def
        frame_payload_start_def)

text \<open>
  Claim C4 as stated fails: the buffer 81 01 61 62 starts with the complete frame
  81 01 61, whose payload is the one byte 61, but \<open>parseFrame\<close> returns the text of
  both bytes that follow the header.
\<close>

theorem complete_frame_counterexample:
  "declared_frame_length [0x81, 0x01, 0x61, 0x62] = Some 3
   \<and> 3 \<le> length [0x81, 0x01, 0x61, 0x62 :: byte]
   \<and> declared_payload_length [0x81, 0x01, 0x61, 0x62] = Some 1
   \<and> first_frame_payload [0x81, 0x01, 0x61, 0x62] = [0x61]
   \<and> toString (first_frame_payload [0x81, 0x01, 0x61, 0x62]) = js_str ''a''
   \<and> snd (parseFrame [0x81, 0x01, 0x61, 0x62]) = js_str ''ab''
   \<and> snd (parseFrame [0x81, 0x01, 0x61, 0x62]) \<noteq> toString (first_frame_payload [0x81, 0x01, 0x61, 0x62])"
  by (simp add: declared_frame_length_def declared_payload_length_def layout_81_01_61_62
        first_frame_payload_def parseFrame_text present_payload_def toString_a toString_ab
        js_str_def)

text \<open>
  Claim C4, amended. For every buffer that is exactly one complete frame (its length is
  the frame length that its header declares, with the payload length taken from the
  indicator, or from the next 2 or 8 bytes, big-endian, for indicators 126 and 127),
  \<open>parseFrame\<close> returns the decoding of the unmasked payload of that frame, which has
  exactly the declared number of bytes. For every buffer, \<open>parseFrame\<close> decodes all
  bytes from the start of the payload to the end of the buffer.
\<close>

theorem parseFrame_single_frame:
  "(declared_frame_length b = Some (length b) \<longrightarrow>
      snd (parseFrame b) = toString (first_frame_payload b)
      \<and> declared_payload_length b = Some (length (first_frame_payload b)))
   \<and> snd (parseFrame b) = toString (present_payload b)
   \<and> length (present_payload b) = length b - frame_payload_start b"
proof -
  have "snd (parseFrame b) = toString (first_frame_payload b)
        \<and> declared_payload_length b = Some (length (first_frame_payload b))"
    if d: "declared_frame_length b = Some (length b)"
  proof -
    from d obtain n where n: "declared_payload_length b = Some n"
      and len: "frame_payload_start b + n = length b"
      by (auto simp add: declared_frame_length_def)
    have "take n (drop (frame_payload_start b) b) = drop (frame_payload_start b) b"
      using len [symmetric] by simp
    then have same: "first_frame_payload b = present_payload b"
      by (simp add: first_frame_payload_def present_payload_def n Let_def)
    have "length (present_payload b) = n"
      using len [symmetric] by (simp add: present_payload_def Let_def)
    with same n show ?thesis by (simp add: parseFrame_text)
  qed
  moreover have "length (present_payload b) = length b - frame_payload_start b"
    by (simp add: present_payload_def Let_def)
  ultimately show ?thesis by (simp add: parseFrame_text)
qed

theorem parseFrame_single_frame_witness:
  "declared_frame_length [0x81, 0x01, 0x61] = Some (length [0x81, 0x01, 0x61 :: byte])
   \<and> first_frame_payload [0x81, 0x01, 0x61] = [0x61]
   \<and> snd (parseFrame [0x81, 0x01, 0x61]) = js_str ''a''
   \<and> declared_payload_length [0x81, 0x01, 0x61] = Some 1"
proof -
  have d: "declared_frame_length [0x81, 0x01, 0x61] = Some (length [0x81, 0x01, 0x61 :: byte])"
    by (simp add: declared_frame_length_def declared_payload_length_def layout_81_01_61)
  have f: "first_frame_payload [0x81, 0x01, 0x61] = [0x61]"
    by (simp add: first_frame_payload_def declared_payload_length_def layout_81_01_61)
  show ?thesis
    using parseFrame_single_frame [of "[0x81, 0x01, 0x61]"] d
    by (simp add: f toString_a)
qed

end
